theory Spec2Isabelle
  imports Complex_Main
begin

section \<open>Conversion of goniometer angles to momentum transfer (qconversion.c)\<close>

text \<open>
  The embedding follows \<^verbatim>\<open>src/qconversion.c\<close>.  A C \<^verbatim>\<open>double\<close> is read as a
  \<^typ>\<open>real\<close> (rounding, infinities and NaN are not represented), a C \<^verbatim>\<open>int\<close> as an
  \<^typ>\<open>int\<close> whose arithmetic wraps around at 32 bits, a \<^verbatim>\<open>double *\<close> buffer as a
  \<^typ>\<open>real list\<close> indexed from 0.  A function that writes through a pointer
  returns the new content of that buffer, and the buffers passed to one call do
  not overlap.  The OpenMP loop over the positions is run sequentially, and the
  text printed by \<^verbatim>\<open>printf\<close> is not represented.
\<close>

subsection \<open>C strings and \<^verbatim>\<open>tolower\<close>\<close>

text \<open>
  A \<^verbatim>\<open>char *\<close> argument is the list of the characters before the terminating NUL.
  Reading at the index \<open>length s\<close> gives the terminator.  Both resolvers return as
  soon as they have read a character that is not an axis letter or not a sign, so
  they never read behind the terminator.
\<close>

definition char_at :: "string \<Rightarrow> int \<Rightarrow> char" where
  "char_at s i = (if 0 \<le> i \<and> nat i < length s then s ! nat i else CHR 0x00)"

text \<open>
  \<^verbatim>\<open>tolower\<close> of \<^verbatim>\<open><ctype.h>\<close> in the C locale: the letters A to Z are mapped to
  a to z, every other character to itself.
\<close>

definition tolower :: "char \<Rightarrow> char" where
  "tolower c =
     (case map_of (zip ''ABCDEFGHIJKLMNOPQRSTUVWXYZ'' ''abcdefghijklmnopqrstuvwxyz'') c of
        Some l \<Rightarrow> l
      | None \<Rightarrow> c)"

subsection \<open>Rotation generators (\<^verbatim>\<open>rot_matrix.h\<close>)\<close>

text \<open>
  \<^verbatim>\<open>fp_rot\<close> is a pointer to one of the six rotation routines.  An entry of an
  \<^verbatim>\<open>fp_rot\<close> array is \<open>None\<close> as long as nothing has been assigned to it.
\<close>

datatype fp_rot =
  rotation_xp | rotation_xm | rotation_yp | rotation_ym | rotation_zp | rotation_zm

text \<open>
  Modelled from the spec: \<^verbatim>\<open>rot_matrix.h\<close> and its implementation are not part of
  the sources at hand.  Each generator maps an angle to the row-major 3x3 matrix of
  the right-handed rotation about its axis, by \<open>+\<theta>\<close> for the \<open>p\<close> routines and by
  \<open>-\<theta>\<close> for the \<open>m\<close> routines.  The routine writes the matrix into its second
  argument; here it is returned.
\<close>

fun call_rot :: "fp_rot \<Rightarrow> real \<Rightarrow> real list" where
  "call_rot rotation_xp a = [1, 0, 0,  0, cos a, - sin a,  0, sin a, cos a]"
| "call_rot rotation_xm a = [1, 0, 0,  0, cos a, sin a,  0, - sin a, cos a]"
| "call_rot rotation_yp a = [cos a, 0, sin a,  0, 1, 0,  - sin a, 0, cos a]"
| "call_rot rotation_ym a = [cos a, 0, - sin a,  0, 1, 0,  sin a, 0, cos a]"
| "call_rot rotation_zp a = [cos a, - sin a, 0,  sin a, cos a, 0,  0, 0, 1]"
| "call_rot rotation_zm a = [cos a, sin a, 0,  - sin a, cos a, 0,  0, 0, 1]"

subsection \<open>Vector and matrix primitives (\<^verbatim>\<open>vecmat3.h\<close>)\<close>

text \<open>
  Modelled from the spec: \<^verbatim>\<open>vecmat3.h\<close> and its implementation are not part of the
  sources at hand; the spec names them as the linear-algebra layer (multiply,
  invert, normalize, add, subtract, scale).  Which argument is overwritten is
  read off the calls in \<^verbatim>\<open>qconversion.c\<close>: \<open>ident\<close>, \<open>matmul\<close>, \<open>diffmat\<close>,
  \<open>normalize\<close>, \<open>vecmul\<close>, \<open>sumvec\<close>, \<open>diffvec\<close> and \<open>veccopy\<close> update their first
  argument, \<open>inversemat\<close> writes its second and \<open>matvec\<close> its third argument.
  \<open>matmul m1 m2\<close> stores the product \<open>m1 * m2\<close> in \<open>m1\<close>.
\<close>

definition M_2PI :: real where
  "M_2PI = 2 * pi"

definition ident :: "real list" where
  "ident = [1, 0, 0,  0, 1, 0,  0, 0, 1]"

definition matmul :: "real list \<Rightarrow> real list \<Rightarrow> real list" where
  "matmul m1 m2 =
     [m1 ! 0 * m2 ! 0 + m1 ! 1 * m2 ! 3 + m1 ! 2 * m2 ! 6,
      m1 ! 0 * m2 ! 1 + m1 ! 1 * m2 ! 4 + m1 ! 2 * m2 ! 7,
      m1 ! 0 * m2 ! 2 + m1 ! 1 * m2 ! 5 + m1 ! 2 * m2 ! 8,
      m1 ! 3 * m2 ! 0 + m1 ! 4 * m2 ! 3 + m1 ! 5 * m2 ! 6,
      m1 ! 3 * m2 ! 1 + m1 ! 4 * m2 ! 4 + m1 ! 5 * m2 ! 7,
      m1 ! 3 * m2 ! 2 + m1 ! 4 * m2 ! 5 + m1 ! 5 * m2 ! 8,
      m1 ! 6 * m2 ! 0 + m1 ! 7 * m2 ! 3 + m1 ! 8 * m2 ! 6,
      m1 ! 6 * m2 ! 1 + m1 ! 7 * m2 ! 4 + m1 ! 8 * m2 ! 7,
      m1 ! 6 * m2 ! 2 + m1 ! 7 * m2 ! 5 + m1 ! 8 * m2 ! 8]"

definition diffmat :: "real list \<Rightarrow> real list \<Rightarrow> real list" where
  "diffmat m1 m2 =
     [m1 ! 0 - m2 ! 0, m1 ! 1 - m2 ! 1, m1 ! 2 - m2 ! 2,
      m1 ! 3 - m2 ! 3, m1 ! 4 - m2 ! 4, m1 ! 5 - m2 ! 5,
      m1 ! 6 - m2 ! 6, m1 ! 7 - m2 ! 7, m1 ! 8 - m2 ! 8]"

definition determinant :: "real list \<Rightarrow> real" where
  "determinant m =
     m ! 0 * (m ! 4 * m ! 8 - m ! 5 * m ! 7)
     - m ! 1 * (m ! 3 * m ! 8 - m ! 5 * m ! 6)
     + m ! 2 * (m ! 3 * m ! 7 - m ! 4 * m ! 6)"

definition inversemat :: "real list \<Rightarrow> real list" where
  "inversemat m =
     (let det = determinant m in
      [(m ! 4 * m ! 8 - m ! 5 * m ! 7) / det,
       (m ! 2 * m ! 7 - m ! 1 * m ! 8) / det,
       (m ! 1 * m ! 5 - m ! 2 * m ! 4) / det,
       (m ! 5 * m ! 6 - m ! 3 * m ! 8) / det,
       (m ! 0 * m ! 8 - m ! 2 * m ! 6) / det,
       (m ! 2 * m ! 3 - m ! 0 * m ! 5) / det,
       (m ! 3 * m ! 7 - m ! 4 * m ! 6) / det,
       (m ! 1 * m ! 6 - m ! 0 * m ! 7) / det,
       (m ! 0 * m ! 4 - m ! 1 * m ! 3) / det])"

definition matvec :: "real list \<Rightarrow> real list \<Rightarrow> real list" where
  "matvec m v =
     [m ! 0 * v ! 0 + m ! 1 * v ! 1 + m ! 2 * v ! 2,
      m ! 3 * v ! 0 + m ! 4 * v ! 1 + m ! 5 * v ! 2,
      m ! 6 * v ! 0 + m ! 7 * v ! 1 + m ! 8 * v ! 2]"

definition norm_v :: "real list \<Rightarrow> real" where
  "norm_v v = sqrt (v ! 0 * v ! 0 + v ! 1 * v ! 1 + v ! 2 * v ! 2)"

definition normalize_v :: "real list \<Rightarrow> real list" where
  "normalize_v v = (let l = norm_v v in [v ! 0 / l, v ! 1 / l, v ! 2 / l])"

definition vecmul :: "real list \<Rightarrow> real \<Rightarrow> real list" where
  "vecmul r a = [r ! 0 * a, r ! 1 * a, r ! 2 * a]"

definition sumvec :: "real list \<Rightarrow> real list \<Rightarrow> real list" where
  "sumvec v1 v2 = [v1 ! 0 + v2 ! 0, v1 ! 1 + v2 ! 1, v1 ! 2 + v2 ! 2]"

definition diffvec :: "real list \<Rightarrow> real list \<Rightarrow> real list" where
  "diffvec v1 v2 = [v1 ! 0 - v2 ! 0, v1 ! 1 - v2 ! 1, v1 ! 2 - v2 ! 2]"

definition veccopy :: "real list \<Rightarrow> real list" where
  "veccopy v2 = [v2 ! 0, v2 ! 1, v2 ! 2]"

subsection \<open>Arithmetic of C \<^verbatim>\<open>int\<close>\<close>

text \<open>
  A C \<^verbatim>\<open>int\<close> has 32 bits.  The C standard leaves the overflow of a signed
  operation undefined; here its result is reduced to the range from \<open>INT_MIN\<close> to
  \<open>INT_MAX\<close>, as two's-complement hardware does.  The index computations of the
  entry points are written with these operations.  A loop counter stays below the
  bound of its loop, and the axis resolver returns at the terminator of its string,
  so the increments and the string indices \<open>2i\<close> and \<open>2i + 1\<close> do not leave the
  range.
\<close>

definition INT_MAX :: int where
  "INT_MAX = 2147483647"

definition INT_MIN :: int where
  "INT_MIN = - 2147483648"

definition int32 :: "int \<Rightarrow> int" where
  "int32 x = (x + 2147483648) mod 4294967296 - 2147483648"

definition add32 :: "int \<Rightarrow> int \<Rightarrow> int" where
  "add32 a b = int32 (a + b)"

definition sub32 :: "int \<Rightarrow> int \<Rightarrow> int" where
  "sub32 a b = int32 (a - b)"

definition mul32 :: "int \<Rightarrow> int \<Rightarrow> int" where
  "mul32 a b = int32 (a * b)"

subsection \<open>Loops, reads and writes into the output buffer\<close>

text \<open>\<^verbatim>\<open>for (i = lo; i < hi; ++i) body\<close>, with the state that the body updates.\<close>

function for_loop :: "int \<Rightarrow> int \<Rightarrow> (int \<Rightarrow> 's \<Rightarrow> 's) \<Rightarrow> 's \<Rightarrow> 's" where
  "for_loop i hi body s = (if i < hi then for_loop (i + 1) hi body (body i s) else s)"
  by pat_completeness auto
termination
  by (relation "measure (\<lambda>(i, hi, body, s). nat (hi - i))") auto

declare for_loop.simps [simp del]

text \<open>
  \<^verbatim>\<open>xs[k]\<close> as a read: an index outside the array, negative ones included, gives no
  specified value.
\<close>

definition read_at :: "real list \<Rightarrow> int \<Rightarrow> real" where
  "read_at xs k = xs ! (if 0 \<le> k then nat k else length xs)"

text \<open>
  \<^verbatim>\<open>q[k] = v\<close>: a store at an index outside the buffer, negative ones included,
  does not change the content of the buffer.
\<close>

definition store :: "real list \<Rightarrow> int \<Rightarrow> real \<Rightarrow> real list" where
  "store q k v = (if 0 \<le> k then q[nat k := v] else q)"

text \<open>
  \<^verbatim>\<open>matvec(m, v, &qpos[off])\<close>: the three components of the product are stored at
  \<open>off\<close>, \<open>off + 1\<close> and \<open>off + 2\<close>.
\<close>

definition store3 :: "real list \<Rightarrow> int \<Rightarrow> real list \<Rightarrow> real list" where
  "store3 qpos off r =
     store (store (store qpos off (r ! 0)) (off + 1) (r ! 1)) (off + 2) (r ! 2)"

subsection \<open>\<^verbatim>\<open>determine_detector_pixel\<close>\<close>

text \<open>The result is the returned status and the content of \<^verbatim>\<open>rpixel\<close>.\<close>

definition determine_detector_pixel :: "string \<Rightarrow> real \<Rightarrow> int \<times> real list" where
  "determine_detector_pixel dir dpixel =
     (let rpixel = [0, 0, 0] in
      if tolower (char_at dir 0) = CHR ''x'' then
        (if char_at dir 1 = CHR ''+'' then (0, rpixel[0 := dpixel])
         else if char_at dir 1 = CHR ''-'' then (0, rpixel[0 := - dpixel])
         else (1, rpixel))
      else if tolower (char_at dir 0) = CHR ''y'' then
        (if char_at dir 1 = CHR ''+'' then (0, rpixel[1 := dpixel])
         else if char_at dir 1 = CHR ''-'' then (0, rpixel[1 := - dpixel])
         else (1, rpixel))
      else if tolower (char_at dir 0) = CHR ''z'' then
        (if char_at dir 1 = CHR ''+'' then (0, rpixel[2 := dpixel])
         else if char_at dir 1 = CHR ''-'' then (0, rpixel[2 := - dpixel])
         else (1, rpixel))
      else (2, rpixel))"

subsection \<open>\<^verbatim>\<open>determine_axes_directions\<close>\<close>

text \<open>
  The loop over the circles, from circle \<open>i\<close> on; it returns from inside the loop
  at the first pair that is not an axis letter followed by a sign.  The result is
  the returned status and the content of \<^verbatim>\<open>fp_circles\<close>.
\<close>

function determine_axes_loop ::
  "fp_rot option list \<Rightarrow> string \<Rightarrow> int \<Rightarrow> int \<Rightarrow> int \<times> fp_rot option list" where
  "determine_axes_loop fp_circles stringAxis n i =
     (if i < n then
        (if tolower (char_at stringAxis (2 * i)) = CHR ''x'' then
           (if char_at stringAxis (2 * i + 1) = CHR ''+'' then
              determine_axes_loop (fp_circles[nat i := Some rotation_xp]) stringAxis n (i + 1)
            else if char_at stringAxis (2 * i + 1) = CHR ''-'' then
              determine_axes_loop (fp_circles[nat i := Some rotation_xm]) stringAxis n (i + 1)
            else (1, fp_circles))
         else if tolower (char_at stringAxis (2 * i)) = CHR ''y'' then
           (if char_at stringAxis (2 * i + 1) = CHR ''+'' then
              determine_axes_loop (fp_circles[nat i := Some rotation_yp]) stringAxis n (i + 1)
            else if char_at stringAxis (2 * i + 1) = CHR ''-'' then
              determine_axes_loop (fp_circles[nat i := Some rotation_ym]) stringAxis n (i + 1)
            else (1, fp_circles))
         else if tolower (char_at stringAxis (2 * i)) = CHR ''z'' then
           (if char_at stringAxis (2 * i + 1) = CHR ''+'' then
              determine_axes_loop (fp_circles[nat i := Some rotation_zp]) stringAxis n (i + 1)
            else if char_at stringAxis (2 * i + 1) = CHR ''-'' then
              determine_axes_loop (fp_circles[nat i := Some rotation_zm]) stringAxis n (i + 1)
            else (1, fp_circles))
         else (2, fp_circles))
      else (0, fp_circles))"
  by pat_completeness auto
termination
  by (relation "measure (\<lambda>(fp_circles, stringAxis, n, i). nat (n - i))") auto

declare determine_axes_loop.simps [simp del]

definition determine_axes_directions ::
  "fp_rot option list \<Rightarrow> string \<Rightarrow> int \<Rightarrow> int \<times> fp_rot option list" where
  "determine_axes_directions fp_circles stringAxis n =
     determine_axes_loop fp_circles stringAxis n 0"

subsection \<open>Composition of the circles of one position\<close>

text \<open>
  Each entry point composes the sample and the detector circles of position \<open>i\<close>
  with the same loop,
  \<^verbatim>\<open>for (j = 0; j < N; ++j) { rot[j](angles[N*i+j], mtemp2); matmul(m, mtemp2); }\<close>,
  started on \<open>m\<close>.
\<close>

definition rotate_circles ::
  "fp_rot option list \<Rightarrow> real list \<Rightarrow> int \<Rightarrow> int \<Rightarrow> real list \<Rightarrow> real list" where
  "rotate_circles rot angles N i m =
     for_loop 0 N
       (\<lambda>j m. let mtemp2 = call_rot (the (rot ! nat j))
                            (read_at angles (add32 (mul32 N i) j))
              in matmul m mtemp2) m"

subsection \<open>\<^verbatim>\<open>ang2q_conversion\<close>: point detector\<close>

text \<open>
  The result is the returned status, the content of \<^verbatim>\<open>qpos\<close> and the content of
  \<^verbatim>\<open>ri\<close> after the call.
\<close>

definition ang2q_conversion ::
  "real list \<Rightarrow> real list \<Rightarrow> real list \<Rightarrow> real list \<Rightarrow> int \<Rightarrow> int \<Rightarrow> int \<Rightarrow>
   string \<Rightarrow> string \<Rightarrow> real \<Rightarrow> int \<times> real list \<times> real list" where
  "ang2q_conversion sampleAngles detectorAngles qpos ri Ns Nd Npoints
     sampleAxis detectorAxis lambda =
     (case determine_axes_directions (replicate (nat Ns) None) sampleAxis Ns of
        (st, sampleRotation) \<Rightarrow>
      if st \<noteq> 0 then (1, qpos, ri) else
      case determine_axes_directions (replicate (nat Nd) None) detectorAxis Nd of
        (st, detectorRotation) \<Rightarrow>
      if st \<noteq> 0 then (1, qpos, ri) else
      let ri = normalize_v ri;
          ri = vecmul ri (M_2PI / lambda)
      in (0,
          for_loop 0 Npoints
            (\<lambda>i qpos.
               let mtemp = rotate_circles sampleRotation sampleAngles Ns i ident;
                   ms = inversemat mtemp;
                   md = rotate_circles detectorRotation detectorAngles Nd i ident;
                   mtemp = ident;
                   md = diffmat md mtemp;
                   ms = matmul ms md
               in store3 qpos (mul32 3 i) (matvec ms ri)) qpos,
          ri))"

subsection \<open>\<^verbatim>\<open>ang2q_conversion_linear\<close>: linear detector\<close>

text \<open>
  The result is the returned status, the content of \<^verbatim>\<open>qpos\<close> and the content of
  \<^verbatim>\<open>rcch\<close> after the call.
\<close>

definition ang2q_conversion_linear ::
  "real list \<Rightarrow> real list \<Rightarrow> real list \<Rightarrow> real list \<Rightarrow> int \<Rightarrow> int \<Rightarrow> int \<Rightarrow>
   string \<Rightarrow> string \<Rightarrow> real \<Rightarrow> real \<Rightarrow> int list \<Rightarrow> string \<Rightarrow> real \<Rightarrow>
   int \<times> real list \<times> real list" where
  "ang2q_conversion_linear sampleAngles detectorAngles qpos rcch Ns Nd Npoints
     sampleAxis detectorAxis cch dpixel roi dir lambda =
     (let f = M_2PI / lambda;
          Nch = sub32 (roi ! 1) (roi ! 0)
      in
      case determine_axes_directions (replicate (nat Ns) None) sampleAxis Ns of
        (st, sampleRotation) \<Rightarrow>
      if st \<noteq> 0 then (1, qpos, rcch) else
      case determine_axes_directions (replicate (nat Nd) None) detectorAxis Nd of
        (st, detectorRotation) \<Rightarrow>
      if st \<noteq> 0 then (1, qpos, rcch) else
      case determine_detector_pixel dir dpixel of
        (st, rpixel) \<Rightarrow>
      if st \<noteq> 0 then (1, qpos, rcch) else
      let rcchp = map (\<lambda>k. rpixel ! k * cch) [0, 1, 2];
          r_i = veccopy rcch;
          r_i = normalize_v r_i
      in (0,
          for_loop 0 Npoints
            (\<lambda>i qpos.
               let mtemp = rotate_circles sampleRotation sampleAngles Ns i ident;
                   ms = inversemat mtemp;
                   md = rotate_circles detectorRotation detectorAngles Nd i ident
               in for_loop (roi ! 0) (roi ! 1)
                    (\<lambda>j qpos.
                       let rd = map (\<lambda>k. real_of_int j * rpixel ! k - rcchp ! k) [0, 1, 2];
                           rd = sumvec rd rcch;
                           rd = normalize_v rd;
                           rtemp = matvec md rd;
                           rtemp = diffvec rtemp r_i;
                           rtemp = vecmul rtemp f
                       in store3 qpos (mul32 3 (sub32 (add32 (mul32 i Nch) j) (roi ! 0)))
                            (matvec ms rtemp))
                    qpos) qpos,
          rcch))"

subsection \<open>\<^verbatim>\<open>ang2q_conversion_area\<close>: area detector\<close>

definition ang2q_conversion_area ::
  "real list \<Rightarrow> real list \<Rightarrow> real list \<Rightarrow> real list \<Rightarrow> int \<Rightarrow> int \<Rightarrow> int \<Rightarrow>
   string \<Rightarrow> string \<Rightarrow> real \<Rightarrow> real \<Rightarrow> real \<Rightarrow> real \<Rightarrow> int list \<Rightarrow> string \<Rightarrow> string \<Rightarrow>
   real \<Rightarrow> int \<times> real list \<times> real list" where
  "ang2q_conversion_area sampleAngles detectorAngles qpos rcch Ns Nd Npoints
     sampleAxis detectorAxis cch1 cch2 dpixel1 dpixel2 roi dir1 dir2 lambda =
     (let f = M_2PI / lambda in
      case determine_axes_directions (replicate (nat Ns) None) sampleAxis Ns of
        (st, sampleRotation) \<Rightarrow>
      if st \<noteq> 0 then (1, qpos, rcch) else
      case determine_axes_directions (replicate (nat Nd) None) detectorAxis Nd of
        (st, detectorRotation) \<Rightarrow>
      if st \<noteq> 0 then (1, qpos, rcch) else
      case determine_detector_pixel dir1 dpixel1 of
        (st, rpixel1) \<Rightarrow>
      if st \<noteq> 0 then (1, qpos, rcch) else
      case determine_detector_pixel dir2 dpixel2 of
        (st, rpixel2) \<Rightarrow>
      if st \<noteq> 0 then (1, qpos, rcch) else
      let rcchp = map (\<lambda>k. rpixel1 ! k * cch1 + rpixel2 ! k * cch2) [0, 1, 2];
          r_i = veccopy rcch;
          r_i = normalize_v r_i;
          idxh1 = mul32 (sub32 (roi ! 1) (roi ! 0)) (sub32 (roi ! 3) (roi ! 2));
          idxh2 = sub32 (roi ! 1) (roi ! 0)
      in (0,
          for_loop 0 Npoints
            (\<lambda>i qpos.
               let mtemp = rotate_circles sampleRotation sampleAngles Ns i ident;
                   ms = inversemat mtemp;
                   md = rotate_circles detectorRotation detectorAngles Nd i ident
               in for_loop (roi ! 0) (roi ! 1)
                    (\<lambda>j1 qpos.
                       for_loop (roi ! 2) (roi ! 3)
                         (\<lambda>j2 qpos.
                            let rd = map (\<lambda>k. real_of_int j1 * rpixel1 ! k
                                               + real_of_int j2 * rpixel2 ! k - rcchp ! k)
                                       [0, 1, 2];
                                rd = sumvec rd rcch;
                                rd = normalize_v rd;
                                rtemp = matvec md rd;
                                rtemp = diffvec rtemp r_i;
                                rtemp = vecmul rtemp f
                            in store3 qpos
                                 (mul32 3
                                    (add32
                                       (add32 (mul32 i idxh1)
                                          (mul32 idxh2 (sub32 j2 (roi ! 2))))
                                       (sub32 j1 (roi ! 0))))
                                 (matvec ms rtemp))
                         qpos)
                    qpos) qpos,
          rcch))"

section \<open>Vocabulary of the specification\<close>

text \<open>Axis letters, sign characters and the circle they name.\<close>

definition axis_letter :: "char \<Rightarrow> bool" where
  "axis_letter c \<longleftrightarrow> c \<in> set ''xyzXYZ''"

definition sign_char :: "char \<Rightarrow> bool" where
  "sign_char c \<longleftrightarrow> c = CHR ''+'' \<or> c = CHR ''-''"

definition axis_number :: "char \<Rightarrow> nat" where
  "axis_number c =
     (if c = CHR ''x'' \<or> c = CHR ''X'' then 0
      else if c = CHR ''y'' \<or> c = CHR ''Y'' then 1 else 2)"

definition sign_value :: "char \<Rightarrow> real" where
  "sign_value c = (if c = CHR ''+'' then 1 else - 1)"

definition generator_of :: "char \<Rightarrow> char \<Rightarrow> fp_rot" where
  "generator_of a s =
     (if a = CHR ''x'' \<or> a = CHR ''X'' then (if s = CHR ''+'' then rotation_xp else rotation_xm)
      else if a = CHR ''y'' \<or> a = CHR ''Y'' then (if s = CHR ''+'' then rotation_yp else rotation_ym)
      else (if s = CHR ''+'' then rotation_zp else rotation_zm))"

text \<open>An axis-spec string all of whose pairs are an axis letter followed by a sign.\<close>

fun valid_axes :: "string \<Rightarrow> bool" where
  "valid_axes [] = True"
| "valid_axes [a] = False"
| "valid_axes (a # s # cs) = (axis_letter a \<and> sign_char s \<and> valid_axes cs)"

fun generators :: "string \<Rightarrow> fp_rot list" where
  "generators (a # s # cs) = generator_of a s # generators cs"
| "generators cs = []"

text \<open>The three components of output vector number \<open>k\<close>: \<^verbatim>\<open>qpos[3k .. 3k+2]\<close>.\<close>

definition slot :: "real list \<Rightarrow> nat \<Rightarrow> real list" where
  "slot q k = [q ! (3 * k), q ! (3 * k + 1), q ! (3 * k + 2)]"

text \<open>
  The rotation matrices of the \<open>N\<close> circles at position \<open>i\<close>, circle 0 first, and
  their product in that order.
\<close>

definition circle_matrices :: "string \<Rightarrow> real list \<Rightarrow> int \<Rightarrow> int \<Rightarrow> real list list" where
  "circle_matrices axes angles N i =
     map (\<lambda>j. call_rot (generators axes ! j) (angles ! (nat N * nat i + j))) [0..<nat N]"

definition compose :: "real list list \<Rightarrow> real list" where
  "compose ms = foldl matmul ident ms"

text \<open>
  The status of the axis resolution as the entry points run it, on a fresh array of
  \<open>n\<close> unassigned entries.
\<close>

definition axes_status :: "string \<Rightarrow> int \<Rightarrow> int" where
  "axes_status s n = fst (determine_axes_directions (replicate (nat n) None) s n)"

definition pixel_status :: "string \<Rightarrow> int" where
  "pixel_status dir = fst (determine_detector_pixel dir 1)"

text \<open>
  The displacement between adjacent pixels along the direction \<open>dir\<close>: the pitch,
  with the sign of the sign character, on the named axis.
\<close>

definition pixel_step :: "string \<Rightarrow> real \<Rightarrow> real list" where
  "pixel_step dir dpixel =
     [0, 0, 0][axis_number (char_at dir 0) := sign_value (char_at dir 1) * dpixel]"

text \<open>The beam vector \<open>k_i\<close>: the given direction normalized and scaled by \<open>2\<pi>/\<lambda>\<close>.\<close>

definition beam_k :: "real list \<Rightarrow> real \<Rightarrow> real list" where
  "beam_k ri lambda = vecmul (normalize_v ri) (2 * pi / lambda)"

text \<open>
  The point-detector transform: apply \<open>R_d - I\<close> to \<open>k\<close>, then apply the inverse of
  \<open>R_s\<close>.
\<close>

definition q_point :: "real list \<Rightarrow> real list \<Rightarrow> real list \<Rightarrow> real list" where
  "q_point Rs Rd k = matvec (inversemat Rs) (matvec (diffmat Rd ident) k)"

text \<open>
  The pixel transform: rotate the pixel direction \<open>d\<close> by \<open>R_d\<close>, subtract the unit
  beam direction \<open>r\<close>, scale by \<open>2\<pi>/\<lambda>\<close>, then apply the inverse of \<open>R_s\<close>.
\<close>

definition q_pixel ::
  "real list \<Rightarrow> real list \<Rightarrow> real list \<Rightarrow> real list \<Rightarrow> real \<Rightarrow> real list" where
  "q_pixel Rs Rd d r lambda =
     matvec (inversemat Rs) (vecmul (diffvec (matvec Rd d) r) (2 * pi / lambda))"

text \<open>The direction of pixel \<open>p\<close> of a linear detector, and of pixel \<open>(p1, p2)\<close> of an
  area detector.\<close>

definition linear_direction :: "real list \<Rightarrow> real \<Rightarrow> real list \<Rightarrow> int \<Rightarrow> real list" where
  "linear_direction step cch rcch p =
     normalize_v (map (\<lambda>k. real_of_int p * step ! k - cch * step ! k + rcch ! k) [0, 1, 2])"

definition area_direction ::
  "real list \<Rightarrow> real list \<Rightarrow> real \<Rightarrow> real \<Rightarrow> real list \<Rightarrow> int \<Rightarrow> int \<Rightarrow> real list" where
  "area_direction step1 step2 cch1 cch2 rcch p1 p2 =
     normalize_v
       (map (\<lambda>k. real_of_int p1 * step1 ! k + real_of_int p2 * step2 ! k
                 - (cch1 * step1 ! k + cch2 * step2 ! k) + rcch ! k) [0, 1, 2])"

text \<open>The number of the output vector of position \<open>i\<close> and pixel \<open>p\<close>, or \<open>(p1, p2)\<close>.\<close>

definition linear_slot :: "int list \<Rightarrow> int \<Rightarrow> int \<Rightarrow> int" where
  "linear_slot roi i p = i * (roi ! 1 - roi ! 0) + (p - roi ! 0)"

definition area_slot :: "int list \<Rightarrow> int \<Rightarrow> int \<Rightarrow> int \<Rightarrow> int" where
  "area_slot roi i p1 p2 =
     i * (roi ! 1 - roi ! 0) * (roi ! 3 - roi ! 2)
     + (p2 - roi ! 2) * (roi ! 1 - roi ! 0) + (p1 - roi ! 0)"

section \<open>Characters\<close>

lemma tolower_x: "tolower c = CHR ''x'' \<longleftrightarrow> c = CHR ''x'' \<or> c = CHR ''X''"
  by (auto simp add: tolower_def split: if_splits)

lemma tolower_y: "tolower c = CHR ''y'' \<longleftrightarrow> c = CHR ''y'' \<or> c = CHR ''Y''"
  by (auto simp add: tolower_def split: if_splits)

lemma tolower_z: "tolower c = CHR ''z'' \<longleftrightarrow> c = CHR ''z'' \<or> c = CHR ''Z''"
  by (auto simp add: tolower_def split: if_splits)

lemmas tolower_xyz = tolower_x tolower_y tolower_z

section \<open>The axis resolver\<close>

lemma determine_axes_loop_done:
  "\<not> i < n \<Longrightarrow> determine_axes_loop fp s n i = (0, fp)"
  by (subst determine_axes_loop.simps) simp

lemma determine_axes_loop_step:
  assumes "i < n" "axis_letter (char_at s (2 * i))" "sign_char (char_at s (2 * i + 1))"
  shows "determine_axes_loop fp s n i =
         determine_axes_loop
           (fp[nat i := Some (generator_of (char_at s (2 * i)) (char_at s (2 * i + 1)))])
           s n (i + 1)"
  using assms
  by (subst determine_axes_loop.simps)
     (auto simp: axis_letter_def sign_char_def generator_of_def tolower_xyz)

lemma determine_axes_loop_bad_letter:
  assumes "i < n" "\<not> axis_letter (char_at s (2 * i))"
  shows "determine_axes_loop fp s n i = (2, fp)"
  using assms
  by (subst determine_axes_loop.simps) (auto simp: axis_letter_def tolower_xyz)

lemma determine_axes_loop_bad_sign:
  assumes "i < n" "axis_letter (char_at s (2 * i))" "\<not> sign_char (char_at s (2 * i + 1))"
  shows "determine_axes_loop fp s n i = (1, fp)"
  using assms
  by (subst determine_axes_loop.simps) (auto simp: axis_letter_def sign_char_def tolower_xyz)

lemma drop_pair:
  assumes "2 * k + 1 < length s"
  shows "drop (2 * k) s = s ! (2 * k) # s ! (2 * k + 1) # drop (2 * (k + 1)) s"
proof -
  have "drop (2 * k) s = s ! (2 * k) # drop (Suc (2 * k)) s"
    using assms by (simp add: Cons_nth_drop_Suc)
  also have "drop (Suc (2 * k)) s = s ! (2 * k + 1) # drop (Suc (Suc (2 * k))) s"
    using assms by (simp add: Cons_nth_drop_Suc)
  finally show ?thesis by simp
qed

lemma determine_axes_loop_spec:
  assumes "length s = 2 * nat n" "length fp = nat n" "0 \<le> i"
  shows "(valid_axes (drop (2 * nat i) s) \<longrightarrow>
            determine_axes_loop fp s n i =
              (0, take (nat i) fp @ map Some (generators (drop (2 * nat i) s))))
       \<and> (\<not> valid_axes (drop (2 * nat i) s) \<longrightarrow>
            fst (determine_axes_loop fp s n i) \<noteq> 0)"
  using assms
proof (induction "nat (n - i)" arbitrary: i fp)
  case 0
  then have "\<not> i < n" by simp
  with 0 show ?case by (simp add: determine_axes_loop_done)
next
  case (Suc k)
  then have lt: "i < n" by simp
  with Suc.prems have in_range: "2 * nat i + 1 < length s" by simp
  let ?a = "char_at s (2 * i)" and ?b = "char_at s (2 * i + 1)"
  have a: "?a = s ! (2 * nat i)" and b: "?b = s ! (2 * nat i + 1)"
    using in_range Suc.prems(3) by (simp_all add: char_at_def nat_mult_distrib nat_add_distrib)
  have dr: "drop (2 * nat i) s = ?a # ?b # drop (2 * nat (i + 1)) s"
    using drop_pair[OF in_range] Suc.prems(3) by (simp add: a b nat_add_distrib)
  show ?case
  proof (cases "axis_letter ?a \<and> sign_char ?b")
    case True
    let ?fp = "fp[nat i := Some (generator_of ?a ?b)]"
    have IH: "(valid_axes (drop (2 * nat (i + 1)) s) \<longrightarrow>
            determine_axes_loop ?fp s n (i + 1) =
              (0, take (nat (i + 1)) ?fp @ map Some (generators (drop (2 * nat (i + 1)) s))))
       \<and> (\<not> valid_axes (drop (2 * nat (i + 1)) s) \<longrightarrow>
            fst (determine_axes_loop ?fp s n (i + 1)) \<noteq> 0)"
      using Suc.hyps(2) Suc.prems by (intro Suc.hyps(1)) simp_all
    have tk: "take (nat (i + 1)) ?fp = take (nat i) fp @ [Some (generator_of ?a ?b)]"
      using lt Suc.prems by (simp add: nat_add_distrib take_Suc_conv_app_nth)
    from True have st: "determine_axes_loop fp s n i = determine_axes_loop ?fp s n (i + 1)"
      using lt by (simp add: determine_axes_loop_step)
    show ?thesis
      using IH True by (simp add: st dr tk)
  next
    case False
    then have "fst (determine_axes_loop fp s n i) \<noteq> 0"
      using lt by (cases "axis_letter ?a")
        (simp_all add: determine_axes_loop_bad_letter determine_axes_loop_bad_sign)
    with False show ?thesis by (auto simp: dr)
  qed
qed

lemma determine_axes_directions_valid:
  assumes "valid_axes s" "length s = 2 * nat n" "length fp = nat n"
  shows "determine_axes_directions fp s n = (0, map Some (generators s))"
  using determine_axes_loop_spec[of s n fp 0] assms
  by (simp add: determine_axes_directions_def)

lemma determine_axes_directions_invalid:
  assumes "\<not> valid_axes s" "length s = 2 * nat n" "length fp = nat n"
  shows "fst (determine_axes_directions fp s n) \<noteq> 0"
  using determine_axes_loop_spec[of s n fp 0] assms
  by (simp add: determine_axes_directions_def)

lemma length_generators: "valid_axes s \<Longrightarrow> 2 * length (generators s) = length s"
  by (induction s rule: valid_axes.induct) simp_all

section \<open>Loops\<close>

lemma for_loop_empty: "hi \<le> i \<Longrightarrow> for_loop i hi body s = s"
  by (subst for_loop.simps) simp

lemma for_loop_fold: "for_loop i hi body s = fold body [i..hi - 1] s"
proof (induction i hi body s rule: for_loop.induct)
  case (1 i hi body s)
  show ?case
  proof (cases "i < hi")
    case True
    then have "[i..hi - 1] = i # [i + 1..hi - 1]"
      by (simp add: upto_rec1)
    with True 1 show ?thesis
      by (subst for_loop.simps) simp
  next
    case False
    then show ?thesis
      by (subst for_loop.simps) simp
  qed
qed

lemma fold_skip: "fold (\<lambda>j s. s) xs s = s"
  by (induction xs) simp_all

lemma for_loop_skip: "for_loop i hi (\<lambda>j s. s) s = s"
  by (simp add: for_loop_fold fold_skip)

section \<open>The pixel resolver\<close>

lemma determine_detector_pixel_valid:
  assumes "axis_letter (char_at dir 0)" "sign_char (char_at dir 1)"
  shows "determine_detector_pixel dir dpixel =
         (0, [0, 0, 0][axis_number (char_at dir 0) := sign_value (char_at dir 1) * dpixel])"
  using assms
  by (auto simp: determine_detector_pixel_def axis_letter_def sign_char_def axis_number_def
        sign_value_def tolower_xyz)

lemma determine_detector_pixel_bad_letter:
  assumes "\<not> axis_letter (char_at dir 0)"
  shows "determine_detector_pixel dir dpixel = (2, [0, 0, 0])"
  using assms
  by (auto simp: determine_detector_pixel_def axis_letter_def tolower_xyz)

lemma determine_detector_pixel_bad_sign:
  assumes "axis_letter (char_at dir 0)" "\<not> sign_char (char_at dir 1)"
  shows "determine_detector_pixel dir dpixel = (1, [0, 0, 0])"
  using assms
  by (auto simp: determine_detector_pixel_def axis_letter_def sign_char_def tolower_xyz)

lemma axis_number_less: "axis_number c < 3"
  by (simp add: axis_number_def)

lemma pixel_status_eq: "fst (determine_detector_pixel dir dpixel) = pixel_status dir"
  by (cases "axis_letter (char_at dir 0)"; cases "sign_char (char_at dir 1)")
     (simp_all add: pixel_status_def determine_detector_pixel_valid
        determine_detector_pixel_bad_letter determine_detector_pixel_bad_sign)

text \<open>
  Claim C7.  For a direction string whose first character is one of x, y, z in
  either case and whose second character is a sign, \<open>determine_detector_pixel\<close>
  returns 0 and a 3-vector whose component at the named axis is \<open>dpixel\<close> for
  \<open>+\<close> and \<open>- dpixel\<close> for \<open>-\<close>, and whose other two components are 0; for a
  pixel pitch \<open>dpixel > 0\<close> that component is the only non-zero one, its absolute
  value is the pitch and its sign is the one of the sign character.  The status
  is non-zero for a second character that is no sign and for a first character
  that is no axis letter.
\<close>

theorem determine_detector_pixel_contract:
  "(axis_letter (char_at dir 0) \<and> sign_char (char_at dir 1) \<longrightarrow>
      fst (determine_detector_pixel dir dpixel) = 0
      \<and> length (snd (determine_detector_pixel dir dpixel)) = 3
      \<and> snd (determine_detector_pixel dir dpixel) ! axis_number (char_at dir 0)
          = sign_value (char_at dir 1) * dpixel
      \<and> (\<forall>k<3. k \<noteq> axis_number (char_at dir 0) \<longrightarrow>
            snd (determine_detector_pixel dir dpixel) ! k = 0)
      \<and> (0 < dpixel \<longrightarrow>
            (\<forall>k<3. snd (determine_detector_pixel dir dpixel) ! k \<noteq> 0
                      \<longleftrightarrow> k = axis_number (char_at dir 0))
            \<and> \<bar>snd (determine_detector_pixel dir dpixel) ! axis_number (char_at dir 0)\<bar> = dpixel
            \<and> sgn (snd (determine_detector_pixel dir dpixel) ! axis_number (char_at dir 0))
                = sign_value (char_at dir 1)))
   \<and> (\<not> sign_char (char_at dir 1) \<longrightarrow> fst (determine_detector_pixel dir dpixel) \<noteq> 0)
   \<and> (\<not> axis_letter (char_at dir 0) \<longrightarrow> fst (determine_detector_pixel dir dpixel) \<noteq> 0)"
proof (intro conjI impI)
  assume bad: "\<not> sign_char (char_at dir 1)"
  show "fst (determine_detector_pixel dir dpixel) \<noteq> 0"
    using bad
    by (cases "axis_letter (char_at dir 0)")
       (simp_all add: determine_detector_pixel_bad_letter determine_detector_pixel_bad_sign)
next
  assume "\<not> axis_letter (char_at dir 0)"
  then show "fst (determine_detector_pixel dir dpixel) \<noteq> 0"
    by (simp add: determine_detector_pixel_bad_letter)
next
  assume ok: "axis_letter (char_at dir 0) \<and> sign_char (char_at dir 1)"
  let ?a = "axis_number (char_at dir 0)" and ?s = "sign_value (char_at dir 1)"
  have r: "determine_detector_pixel dir dpixel = (0, [0, 0, 0][?a := ?s * dpixel])"
    using ok by (simp only: determine_detector_pixel_valid)
  have a3: "?a = 0 \<or> ?a = 1 \<or> ?a = 2" by (simp add: axis_number_def)
  have s: "?s = 1 \<or> ?s = - 1" by (simp add: sign_value_def)
  show "fst (determine_detector_pixel dir dpixel) = 0" by (simp only: r fst_conv)
  show "length (snd (determine_detector_pixel dir dpixel)) = 3"
    by (simp only: r snd_conv length_list_update) simp
  show at: "snd (determine_detector_pixel dir dpixel) ! ?a = ?s * dpixel"
    using a3 by (simp only: r snd_conv) auto
  show others: "\<forall>k<3. k \<noteq> ?a \<longrightarrow> snd (determine_detector_pixel dir dpixel) ! k = 0"
    using a3 by (simp only: r snd_conv) (auto simp: less_Suc_eq numeral_3_eq_3)
  {
    assume pos: "0 < dpixel"
    show "\<forall>k<3. snd (determine_detector_pixel dir dpixel) ! k \<noteq> 0 \<longleftrightarrow> k = ?a"
      using others at s pos by auto
    show "\<bar>snd (determine_detector_pixel dir dpixel) ! ?a\<bar> = dpixel"
      using at s pos by auto
    show "sgn (snd (determine_detector_pixel dir dpixel) ! ?a) = ?s"
      using at s pos by (auto simp: sgn_mult)
  }
qed

theorem determine_detector_pixel_contract_witness:
  "axis_letter (char_at ''X-'' 0) \<and> sign_char (char_at ''X-'' 1) \<and> (0::real) < 2
   \<and> determine_detector_pixel ''X-'' 2 = (0, [- 2, 0, 0])
   \<and> \<not> sign_char (char_at ''x*'' 1) \<and> fst (determine_detector_pixel ''x*'' 2) \<noteq> 0
   \<and> \<not> axis_letter (char_at ''q+'' 0) \<and> fst (determine_detector_pixel ''q+'' 2) \<noteq> 0"
  using determine_detector_pixel_contract[of "''X-''" 2]
    determine_detector_pixel_contract[of "''x*''" 2]
    determine_detector_pixel_contract[of "''q+''" 2]
  by (simp add: determine_detector_pixel_def axis_letter_def sign_char_def char_at_def
        tolower_def)

section \<open>Status and failure paths of the entry points\<close>

lemma generators_nth:
  "valid_axes s \<Longrightarrow> i < length (generators s) \<Longrightarrow>
   generators s ! i = generator_of (s ! (2 * i)) (s ! (2 * i + 1))"
proof (induction s arbitrary: i rule: valid_axes.induct)
  case (3 a b cs)
  then show ?case by (cases i) simp_all
qed simp_all

lemma axes_status_valid:
  "valid_axes s \<Longrightarrow> length s = 2 * nat n \<Longrightarrow> axes_status s n = 0"
  by (simp add: axes_status_def determine_axes_directions_valid)

lemma axes_status_invalid:
  "\<not> valid_axes s \<Longrightarrow> length s = 2 * nat n \<Longrightarrow> axes_status s n \<noteq> 0"
  by (simp add: axes_status_def determine_axes_directions_invalid)

lemma ang2q_conversion_fail:
  assumes "axes_status sampleAxis Ns \<noteq> 0 \<or> axes_status detectorAxis Nd \<noteq> 0"
  shows "ang2q_conversion sampleAngles detectorAngles qpos ri Ns Nd Npoints
           sampleAxis detectorAxis lambda = (1, qpos, ri)"
  using assms
  by (auto simp: ang2q_conversion_def axes_status_def split: prod.splits)

lemma ang2q_conversion_ok:
  assumes "axes_status sampleAxis Ns = 0" "axes_status detectorAxis Nd = 0"
  shows "fst (ang2q_conversion sampleAngles detectorAngles qpos ri Ns Nd Npoints
           sampleAxis detectorAxis lambda) = 0"
    and "snd (snd (ang2q_conversion sampleAngles detectorAngles qpos ri Ns Nd Npoints
           sampleAxis detectorAxis lambda)) = vecmul (normalize_v ri) (M_2PI / lambda)"
  using assms
  by (auto simp: ang2q_conversion_def axes_status_def Let_def split: prod.splits)

lemma ang2q_conversion_linear_fail:
  assumes "axes_status sampleAxis Ns \<noteq> 0 \<or> axes_status detectorAxis Nd \<noteq> 0
           \<or> pixel_status dir \<noteq> 0"
  shows "ang2q_conversion_linear sampleAngles detectorAngles qpos rcch Ns Nd Npoints
           sampleAxis detectorAxis cch dpixel roi dir lambda = (1, qpos, rcch)"
  using assms pixel_status_eq[of dir dpixel]
  by (auto simp: ang2q_conversion_linear_def axes_status_def Let_def split: prod.splits)

lemma ang2q_conversion_linear_ok:
  assumes "axes_status sampleAxis Ns = 0" "axes_status detectorAxis Nd = 0"
    "pixel_status dir = 0"
  shows "fst (ang2q_conversion_linear sampleAngles detectorAngles qpos rcch Ns Nd Npoints
           sampleAxis detectorAxis cch dpixel roi dir lambda) = 0"
  using assms pixel_status_eq[of dir dpixel]
  by (auto simp: ang2q_conversion_linear_def axes_status_def Let_def split: prod.splits)

lemma ang2q_conversion_linear_rcch:
  "snd (snd (ang2q_conversion_linear sampleAngles detectorAngles qpos rcch Ns Nd Npoints
           sampleAxis detectorAxis cch dpixel roi dir lambda)) = rcch"
  by (auto simp: ang2q_conversion_linear_def Let_def split: prod.splits)

lemma ang2q_conversion_area_fail:
  assumes "axes_status sampleAxis Ns \<noteq> 0 \<or> axes_status detectorAxis Nd \<noteq> 0
           \<or> pixel_status dir1 \<noteq> 0 \<or> pixel_status dir2 \<noteq> 0"
  shows "ang2q_conversion_area sampleAngles detectorAngles qpos rcch Ns Nd Npoints
           sampleAxis detectorAxis cch1 cch2 dpixel1 dpixel2 roi dir1 dir2 lambda
         = (1, qpos, rcch)"
  using assms pixel_status_eq[of dir1 dpixel1] pixel_status_eq[of dir2 dpixel2]
  by (auto simp: ang2q_conversion_area_def axes_status_def Let_def split: prod.splits)

lemma ang2q_conversion_area_ok:
  assumes "axes_status sampleAxis Ns = 0" "axes_status detectorAxis Nd = 0"
    "pixel_status dir1 = 0" "pixel_status dir2 = 0"
  shows "fst (ang2q_conversion_area sampleAngles detectorAngles qpos rcch Ns Nd Npoints
           sampleAxis detectorAxis cch1 cch2 dpixel1 dpixel2 roi dir1 dir2 lambda) = 0"
  using assms pixel_status_eq[of dir1 dpixel1] pixel_status_eq[of dir2 dpixel2]
  by (auto simp: ang2q_conversion_area_def axes_status_def Let_def split: prod.splits)

lemma ang2q_conversion_area_rcch:
  "snd (snd (ang2q_conversion_area sampleAngles detectorAngles qpos rcch Ns Nd Npoints
           sampleAxis detectorAxis cch1 cch2 dpixel1 dpixel2 roi dir1 dir2 lambda)) = rcch"
  by (auto simp: ang2q_conversion_area_def Let_def split: prod.splits)

lemmas eval_resolvers =
  axes_status_def pixel_status_def determine_axes_directions_def determine_axes_loop.simps
  determine_detector_pixel_def tolower_def char_at_def


section \<open>Empty regions of interest\<close>

lemma for_loop_empty_fun: "hi \<le> i \<Longrightarrow> for_loop i hi body = (\<lambda>s. s)"
  by (rule ext) (simp add: for_loop_empty)

lemma for_loop_skip_fun: "for_loop i hi (\<lambda>j s. s) = (\<lambda>s. s)"
  by (rule ext) (simp add: for_loop_skip)

lemma ang2q_conversion_linear_empty_roi:
  assumes "roi ! 1 \<le> roi ! 0"
  shows "fst (snd (ang2q_conversion_linear sampleAngles detectorAngles qpos rcch Ns Nd Npoints sampleAxis detectorAxis cch dpixel roi dir lambda)) = qpos"
  using assms
  by (auto simp: ang2q_conversion_linear_def Let_def for_loop_empty_fun for_loop_skip_fun
        split: prod.splits)

lemma ang2q_conversion_area_empty_roi:
  assumes "roi ! 1 \<le> roi ! 0 \<or> roi ! 3 \<le> roi ! 2"
  shows "fst (snd (ang2q_conversion_area sampleAngles detectorAngles qpos rcch Ns Nd Npoints sampleAxis detectorAxis cch1 cch2 dpixel1 dpixel2 roi dir1 dir2 lambda)) = qpos"
  using assms
  by (auto simp: ang2q_conversion_area_def Let_def for_loop_empty_fun for_loop_skip_fun
        split: prod.splits)

section \<open>Length of the beam vector\<close>

lemma norm_v_Cons: "norm_v [a, b, c] = sqrt (a * a + b * b + c * c)"
  by (simp add: norm_v_def)

lemma norm_v_normalize_v:
  assumes "norm_v v \<noteq> 0"
  shows "norm_v (normalize_v v) = 1"
proof -
  define l where "l = norm_v v"
  define s where "s = v ! 0 * v ! 0 + v ! 1 * v ! 1 + v ! 2 * v ! 2"
  have "0 \<le> s" by (simp add: s_def)
  then have l: "l * l = s"
    by (simp add: l_def norm_v_def s_def)
  have nz: "l \<noteq> 0" using assms by (simp add: l_def)
  have "normalize_v v = [v ! 0 / l, v ! 1 / l, v ! 2 / l]"
    by (simp add: normalize_v_def l_def Let_def)
  then have "norm_v (normalize_v v)
        = sqrt (v ! 0 / l * (v ! 0 / l) + v ! 1 / l * (v ! 1 / l) + v ! 2 / l * (v ! 2 / l))"
    by (simp only: norm_v_Cons)
  also have "v ! 0 / l * (v ! 0 / l) + v ! 1 / l * (v ! 1 / l) + v ! 2 / l * (v ! 2 / l)
        = s / (l * l)"
    by (simp add: s_def add_divide_distrib)
  also have "s / (l * l) = 1"
    using nz by (simp add: l[symmetric])
  finally show ?thesis by simp
qed

lemma norm_v_vecmul: "norm_v (vecmul v a) = \<bar>a\<bar> * norm_v v"
proof -
  have "(v ! 0 * a) * (v ! 0 * a) + (v ! 1 * a) * (v ! 1 * a) + (v ! 2 * a) * (v ! 2 * a)
        = (a * a) * (v ! 0 * v ! 0 + v ! 1 * v ! 1 + v ! 2 * v ! 2)"
    by (simp add: algebra_simps)
  then show ?thesis
    by (simp add: norm_v_def vecmul_def real_sqrt_mult)
qed

section \<open>Claims about the setup phase\<close>

text \<open>
  Claim C5 says that the entry points return distinct non-zero codes for a failed
  sample-axis resolution, a failed detector-axis resolution and a failed
  pixel-direction resolution.  Every failure branch of the entry points is
  \<^verbatim>\<open>return 1\<close>: the three failures of the linear-detector entry point give
  the same code.
\<close>
theorem status_codes_distinct_counterexample:
  "\<not> distinct
     [fst (ang2q_conversion_linear [0] [0] [7, 7, 7] [0, 0, 1] 1 1 1 ''q+'' ''x+''
             0 1 [0, 1] ''x+'' 1),
      fst (ang2q_conversion_linear [0] [0] [7, 7, 7] [0, 0, 1] 1 1 1 ''x+'' ''q+''
             0 1 [0, 1] ''x+'' 1),
      fst (ang2q_conversion_linear [0] [0] [7, 7, 7] [0, 0, 1] 1 1 1 ''x+'' ''x+''
             0 1 [0, 1] ''q+'' 1)]"
  by (simp add: ang2q_conversion_linear_def determine_axes_directions_def
        determine_axes_loop.simps determine_detector_pixel_def tolower_def char_at_def)

text \<open>
  Claim C5, amended.  Each entry point returns 1 when any of its resolutions fails,
  whichever it is, and 0 when all of them succeed.  (The codes 1 and 2 of the
  resolvers themselves are not passed on.)
\<close>
theorem entry_point_status:
  "fst (ang2q_conversion sampleAngles detectorAngles qpos ri Ns Nd Npoints sampleAxis detectorAxis lambda)
     = (if axes_status sampleAxis Ns \<noteq> 0 \<or> axes_status detectorAxis Nd \<noteq> 0 then 1 else 0)
   \<and> fst (ang2q_conversion_linear sampleAngles detectorAngles qpos rcch Ns Nd Npoints sampleAxis detectorAxis cch dpixel roi dir lambda)
     = (if axes_status sampleAxis Ns \<noteq> 0 \<or> axes_status detectorAxis Nd \<noteq> 0
           \<or> pixel_status dir \<noteq> 0 then 1 else 0)
   \<and> fst (ang2q_conversion_area sampleAngles detectorAngles qpos rcch Ns Nd Npoints sampleAxis detectorAxis cch1 cch2 dpixel1 dpixel2 roi dir1 dir2 lambda)
     = (if axes_status sampleAxis Ns \<noteq> 0 \<or> axes_status detectorAxis Nd \<noteq> 0
           \<or> pixel_status dir1 \<noteq> 0 \<or> pixel_status dir2 \<noteq> 0 then 1 else 0)"
  by (simp add: ang2q_conversion_fail ang2q_conversion_ok(1)
        ang2q_conversion_linear_fail ang2q_conversion_linear_ok
        ang2q_conversion_area_fail ang2q_conversion_area_ok)

theorem entry_point_status_witness:
  "axes_status ''q+'' 1 \<noteq> 0 \<and> axes_status ''x+'' 1 = 0
   \<and> pixel_status ''y-'' = 0 \<and> pixel_status ''z*'' \<noteq> 0
   \<and> fst (ang2q_conversion [0] [0] [7, 7, 7] [0, 0, 1] 1 1 1 ''q+'' ''x+'' 1) = 1
   \<and> fst (ang2q_conversion_linear [0] [0] [7, 7, 7] [0, 0, 1] 1 1 1 ''q+'' ''x+''
             0 1 [0, 1, 0, 1] ''y-'' 1) = 1
   \<and> fst (ang2q_conversion_area [0] [0] [7, 7, 7] [0, 0, 1] 1 1 1 ''q+'' ''x+''
             0 0 1 1 [0, 1, 0, 1] ''y-'' ''z*'' 1) = 1
   \<and> fst (ang2q_conversion [0] [0] [7, 7, 7] [0, 0, 1] 1 1 1 ''x+'' ''x+'' 1) = 0"
  using entry_point_status[where sampleAngles = "[0]" and detectorAngles = "[0]"
      and qpos = "[7, 7, 7]" and ri = "[0, 0, 1]" and rcch = "[0, 0, 1]"
      and Ns = 1 and Nd = 1 and Npoints = 1 and sampleAxis = "''q+''"
      and detectorAxis = "''x+''" and lambda = 1 and cch = 0 and dpixel = 1
      and roi = "[0, 1, 0, 1]" and dir = "''y-''" and ?cch1.0 = 0 and ?cch2.0 = 0
      and ?dpixel1.0 = 1 and ?dpixel2.0 = 1 and ?dir1.0 = "''y-''" and ?dir2.0 = "''z*''"]
    entry_point_status[where sampleAngles = "[0]" and detectorAngles = "[0]"
      and qpos = "[7, 7, 7]" and ri = "[0, 0, 1]" and rcch = "[0, 0, 1]"
      and Ns = 1 and Nd = 1 and Npoints = 1 and sampleAxis = "''x+''"
      and detectorAxis = "''x+''" and lambda = 1 and cch = 0 and dpixel = 1
      and roi = "[0, 1, 0, 1]" and dir = "''y-''" and ?cch1.0 = 0 and ?cch2.0 = 0
      and ?dpixel1.0 = 1 and ?dpixel2.0 = 1 and ?dir1.0 = "''y-''" and ?dir2.0 = "''z*''"]
  by (simp add: eval_resolvers)

text \<open>
  Claim C6.  For an axis-spec string of length \<open>2n\<close> all of whose pairs are an axis
  letter (x, y, z in either case) followed by a sign, \<open>determine_axes_directions\<close>
  returns 0 and has assigned all \<open>n\<close> entries of the array, entry \<open>i\<close> being the
  generator named by pair \<open>i\<close>.  If some pair of the string is malformed it returns
  a non-zero value, and each entry point called with that string as its sample or
  as its detector axes returns 1 and leaves its buffers as they were.
\<close>
theorem determine_axes_directions_contract:
  "(valid_axes s \<and> length s = 2 * nat n \<and> length fp = nat n \<longrightarrow>
      fst (determine_axes_directions fp s n) = 0
      \<and> length (snd (determine_axes_directions fp s n)) = nat n
      \<and> (\<forall>i < nat n. snd (determine_axes_directions fp s n) ! i
             = Some (generator_of (s ! (2 * i)) (s ! (2 * i + 1)))))
   \<and> (\<not> valid_axes s \<and> length s = 2 * nat n \<and> length fp = nat n \<longrightarrow>
      fst (determine_axes_directions fp s n) \<noteq> 0)
   \<and> (\<not> valid_axes s \<and> length s = 2 * nat n \<longrightarrow>
      ang2q_conversion sampleAngles detectorAngles qpos ri n Nd Npoints
        s detectorAxis lambda = (1, qpos, ri)
      \<and> ang2q_conversion sampleAngles detectorAngles qpos ri Ns n Npoints
        sampleAxis s lambda = (1, qpos, ri)
      \<and> ang2q_conversion_linear sampleAngles detectorAngles qpos rcch n Nd Npoints
        s detectorAxis cch dpixel roi dir lambda = (1, qpos, rcch)
      \<and> ang2q_conversion_linear sampleAngles detectorAngles qpos rcch Ns n Npoints
        sampleAxis s cch dpixel roi dir lambda = (1, qpos, rcch)
      \<and> ang2q_conversion_area sampleAngles detectorAngles qpos rcch n Nd Npoints
        s detectorAxis cch1 cch2 dpixel1 dpixel2 roi dir1 dir2 lambda = (1, qpos, rcch)
      \<and> ang2q_conversion_area sampleAngles detectorAngles qpos rcch Ns n Npoints
        sampleAxis s cch1 cch2 dpixel1 dpixel2 roi dir1 dir2 lambda = (1, qpos, rcch))"
proof (intro conjI impI)
  assume ok: "valid_axes s \<and> length s = 2 * nat n \<and> length fp = nat n"
  then have r: "determine_axes_directions fp s n = (0, map Some (generators s))"
    by (simp add: determine_axes_directions_valid)
  have len: "length (generators s) = nat n"
    using ok length_generators[of s] by simp
  show "fst (determine_axes_directions fp s n) = 0" by (simp add: r)
  show "length (snd (determine_axes_directions fp s n)) = nat n" by (simp add: r len)
  show "\<forall>i < nat n. snd (determine_axes_directions fp s n) ! i
             = Some (generator_of (s ! (2 * i)) (s ! (2 * i + 1)))"
    using ok len by (simp add: r generators_nth)
next
  assume "\<not> valid_axes s \<and> length s = 2 * nat n \<and> length fp = nat n"
  then show "fst (determine_axes_directions fp s n) \<noteq> 0"
    by (simp add: determine_axes_directions_invalid)
next
  assume "\<not> valid_axes s \<and> length s = 2 * nat n"
  then have bad: "axes_status s n \<noteq> 0"
    by (simp add: axes_status_invalid)
  show "ang2q_conversion sampleAngles detectorAngles qpos ri n Nd Npoints
        s detectorAxis lambda = (1, qpos, ri)"
    using bad by (simp add: ang2q_conversion_fail)
  show "ang2q_conversion sampleAngles detectorAngles qpos ri Ns n Npoints
        sampleAxis s lambda = (1, qpos, ri)"
    using bad by (simp add: ang2q_conversion_fail)
  show "ang2q_conversion_linear sampleAngles detectorAngles qpos rcch n Nd Npoints
        s detectorAxis cch dpixel roi dir lambda = (1, qpos, rcch)"
    using bad by (simp add: ang2q_conversion_linear_fail)
  show "ang2q_conversion_linear sampleAngles detectorAngles qpos rcch Ns n Npoints
        sampleAxis s cch dpixel roi dir lambda = (1, qpos, rcch)"
    using bad by (simp add: ang2q_conversion_linear_fail)
  show "ang2q_conversion_area sampleAngles detectorAngles qpos rcch n Nd Npoints
        s detectorAxis cch1 cch2 dpixel1 dpixel2 roi dir1 dir2 lambda = (1, qpos, rcch)"
    using bad by (simp add: ang2q_conversion_area_fail)
  show "ang2q_conversion_area sampleAngles detectorAngles qpos rcch Ns n Npoints
        sampleAxis s cch1 cch2 dpixel1 dpixel2 roi dir1 dir2 lambda = (1, qpos, rcch)"
    using bad by (simp add: ang2q_conversion_area_fail)
qed

theorem determine_axes_directions_contract_witness:
  "valid_axes ''x+Z-'' \<and> length ''x+Z-'' = 2 * nat 2
   \<and> determine_axes_directions [None, None] ''x+Z-'' 2
       = (0, [Some rotation_xp, Some rotation_zm])
   \<and> \<not> valid_axes ''x+q-'' \<and> length ''x+q-'' = 2 * nat 2
   \<and> fst (determine_axes_directions [None, None] ''x+q-'' 2) \<noteq> 0
   \<and> ang2q_conversion [0, 0] [0] [7, 7, 7] [0, 0, 1] 2 1 1 ''x+q-'' ''y+'' 1
       = (1, [7, 7, 7], [0, 0, 1])"
  using determine_axes_directions_contract[where s = "''x+Z-''" and n = 2
      and fp = "[None, None]" and sampleAngles = "[0, 0]" and detectorAngles = "[0]"
      and qpos = "[7, 7, 7]" and ri = "[0, 0, 1]" and rcch = "[0, 0, 1]"
      and Ns = 1 and Nd = 1 and Npoints = 1 and sampleAxis = "''y+''"
      and detectorAxis = "''y+''" and lambda = 1 and cch = 0 and dpixel = 1
      and roi = "[0, 1, 0, 1]" and dir = "''y-''" and ?cch1.0 = 0 and ?cch2.0 = 0
      and ?dpixel1.0 = 1 and ?dpixel2.0 = 1 and ?dir1.0 = "''y-''" and ?dir2.0 = "''z+''"]
    determine_axes_directions_contract[where s = "''x+q-''" and n = 2
      and fp = "[None, None]" and sampleAngles = "[0, 0]" and detectorAngles = "[0]"
      and qpos = "[7, 7, 7]" and ri = "[0, 0, 1]" and rcch = "[0, 0, 1]"
      and Ns = 1 and Nd = 1 and Npoints = 1 and sampleAxis = "''y+''"
      and detectorAxis = "''y+''" and lambda = 1 and cch = 0 and dpixel = 1
      and roi = "[0, 1, 0, 1]" and dir = "''y-''" and ?cch1.0 = 0 and ?cch2.0 = 0
      and ?dpixel1.0 = 1 and ?dpixel2.0 = 1 and ?dir1.0 = "''y-''" and ?dir2.0 = "''z+''"]
  by (simp add: axis_letter_def sign_char_def determine_axes_directions_def
        determine_axes_loop.simps tolower_def char_at_def)

text \<open>
  Claim C8.  When the resolution of the sample axes, of the detector axes or of a
  pixel direction fails, the entry point returns a non-zero status and \<^verbatim>\<open>qpos\<close>
  is exactly as it was before the call.
\<close>
theorem setup_failure_leaves_qpos:
  "(axes_status sampleAxis Ns \<noteq> 0 \<or> axes_status detectorAxis Nd \<noteq> 0 \<longrightarrow>
      fst (ang2q_conversion sampleAngles detectorAngles qpos ri Ns Nd Npoints sampleAxis detectorAxis lambda) \<noteq> 0 \<and> fst (snd (ang2q_conversion sampleAngles detectorAngles qpos ri Ns Nd Npoints sampleAxis detectorAxis lambda)) = qpos)
   \<and> (axes_status sampleAxis Ns \<noteq> 0 \<or> axes_status detectorAxis Nd \<noteq> 0
        \<or> pixel_status dir \<noteq> 0 \<longrightarrow>
      fst (ang2q_conversion_linear sampleAngles detectorAngles qpos rcch Ns Nd Npoints sampleAxis detectorAxis cch dpixel roi dir lambda) \<noteq> 0 \<and> fst (snd (ang2q_conversion_linear sampleAngles detectorAngles qpos rcch Ns Nd Npoints sampleAxis detectorAxis cch dpixel roi dir lambda)) = qpos)
   \<and> (axes_status sampleAxis Ns \<noteq> 0 \<or> axes_status detectorAxis Nd \<noteq> 0
        \<or> pixel_status dir1 \<noteq> 0 \<or> pixel_status dir2 \<noteq> 0 \<longrightarrow>
      fst (ang2q_conversion_area sampleAngles detectorAngles qpos rcch Ns Nd Npoints sampleAxis detectorAxis cch1 cch2 dpixel1 dpixel2 roi dir1 dir2 lambda) \<noteq> 0 \<and> fst (snd (ang2q_conversion_area sampleAngles detectorAngles qpos rcch Ns Nd Npoints sampleAxis detectorAxis cch1 cch2 dpixel1 dpixel2 roi dir1 dir2 lambda)) = qpos)"
  by (simp add: ang2q_conversion_fail ang2q_conversion_linear_fail
        ang2q_conversion_area_fail)

theorem setup_failure_leaves_qpos_witness:
  "axes_status ''x+'' 1 = 0 \<and> axes_status ''q+'' 1 \<noteq> 0
   \<and> pixel_status ''y-'' = 0 \<and> pixel_status ''z*'' \<noteq> 0
   \<and> fst (ang2q_conversion [0] [0] [7, 7, 7] [0, 0, 1] 1 1 1 ''x+'' ''q+'' 1) \<noteq> 0
   \<and> fst (snd (ang2q_conversion [0] [0] [7, 7, 7] [0, 0, 1] 1 1 1 ''x+'' ''q+'' 1))
       = [7, 7, 7]
   \<and> fst (snd (ang2q_conversion_linear [0] [0] [7, 7, 7] [0, 0, 1] 1 1 1 ''x+'' ''q+''
                  0 1 [0, 1, 0, 1] ''y-'' 1)) = [7, 7, 7]
   \<and> fst (snd (ang2q_conversion_area [0] [0] [7, 7, 7] [0, 0, 1] 1 1 1 ''x+'' ''q+''
                  0 0 1 1 [0, 1, 0, 1] ''y-'' ''z*'' 1)) = [7, 7, 7]"
  using setup_failure_leaves_qpos[where sampleAngles = "[0]" and detectorAngles = "[0]"
      and qpos = "[7, 7, 7]" and ri = "[0, 0, 1]" and rcch = "[0, 0, 1]"
      and Ns = 1 and Nd = 1 and Npoints = 1 and sampleAxis = "''x+''"
      and detectorAxis = "''q+''" and lambda = 1 and cch = 0 and dpixel = 1
      and roi = "[0, 1, 0, 1]" and dir = "''y-''" and ?cch1.0 = 0 and ?cch2.0 = 0
      and ?dpixel1.0 = 1 and ?dpixel2.0 = 1 and ?dir1.0 = "''y-''" and ?dir2.0 = "''z*''"]
  by (simp add: eval_resolvers)

text \<open>
  Claim C9.  With an empty region of interest (\<open>roi[1] \<le> roi[0]\<close> for the linear
  detector, an empty range on either axis for the area detector) no element of
  \<^verbatim>\<open>qpos\<close> is written, and the call returns 0 whenever its axis and direction
  strings resolve: the empty region is no error.
\<close>
theorem empty_roi_is_no_error:
  "(roi ! 1 \<le> roi ! 0 \<longrightarrow>
      fst (snd (ang2q_conversion_linear sampleAngles detectorAngles qpos rcch Ns Nd Npoints sampleAxis detectorAxis cch dpixel roi dir lambda)) = qpos
      \<and> (axes_status sampleAxis Ns = 0 \<and> axes_status detectorAxis Nd = 0
          \<and> pixel_status dir = 0 \<longrightarrow> fst (ang2q_conversion_linear sampleAngles detectorAngles qpos rcch Ns Nd Npoints sampleAxis detectorAxis cch dpixel roi dir lambda) = 0))
   \<and> (roi ! 1 \<le> roi ! 0 \<or> roi ! 3 \<le> roi ! 2 \<longrightarrow>
      fst (snd (ang2q_conversion_area sampleAngles detectorAngles qpos rcch Ns Nd Npoints sampleAxis detectorAxis cch1 cch2 dpixel1 dpixel2 roi dir1 dir2 lambda)) = qpos
      \<and> (axes_status sampleAxis Ns = 0 \<and> axes_status detectorAxis Nd = 0
          \<and> pixel_status dir1 = 0 \<and> pixel_status dir2 = 0 \<longrightarrow> fst (ang2q_conversion_area sampleAngles detectorAngles qpos rcch Ns Nd Npoints sampleAxis detectorAxis cch1 cch2 dpixel1 dpixel2 roi dir1 dir2 lambda) = 0))"
  by (simp add: ang2q_conversion_linear_empty_roi ang2q_conversion_area_empty_roi
        ang2q_conversion_linear_ok ang2q_conversion_area_ok)

theorem empty_roi_is_no_error_witness:
  "[3, 3, 0, 2 :: int] ! 1 \<le> [3, 3, 0, 2] ! 0
   \<and> axes_status ''x+'' 1 = 0 \<and> axes_status ''z-'' 1 = 0
   \<and> pixel_status ''y-'' = 0 \<and> pixel_status ''z+'' = 0
   \<and> ang2q_conversion_linear [0] [0] [7, 7, 7] [0, 0, 1] 1 1 1 ''x+'' ''z-''
        0 1 [3, 3, 0, 2] ''y-'' 1 = (0, [7, 7, 7], [0, 0, 1])
   \<and> ang2q_conversion_area [0] [0] [7, 7, 7] [0, 0, 1] 1 1 1 ''x+'' ''z-''
        0 0 1 1 [3, 3, 0, 2] ''y-'' ''z+'' 1 = (0, [7, 7, 7], [0, 0, 1])"
  using empty_roi_is_no_error[where sampleAngles = "[0]" and detectorAngles = "[0]"
      and qpos = "[7, 7, 7]" and rcch = "[0, 0, 1]"
      and Ns = 1 and Nd = 1 and Npoints = 1 and sampleAxis = "''x+''"
      and detectorAxis = "''z-''" and lambda = 1 and cch = 0 and dpixel = 1
      and roi = "[3, 3, 0, 2]" and dir = "''y-''" and ?cch1.0 = 0 and ?cch2.0 = 0
      and ?dpixel1.0 = 1 and ?dpixel2.0 = 1 and ?dir1.0 = "''y-''" and ?dir2.0 = "''z+''"]
    ang2q_conversion_linear_rcch[of "[0]" "[0]" "[7, 7, 7]" "[0, 0, 1]" 1 1 1 "''x+''" "''z-''"
        0 1 "[3, 3, 0, 2]" "''y-''" 1]
    ang2q_conversion_area_rcch[of "[0]" "[0]" "[7, 7, 7]" "[0, 0, 1]" 1 1 1 "''x+''" "''z-''"
        0 0 1 1 "[3, 3, 0, 2]" "''y-''" "''z+''" 1]
  by (simp add: eval_resolvers prod_eq_iff)

text \<open>
  Claim C10.  After a successful call of \<open>ang2q_conversion\<close> the buffer \<^verbatim>\<open>ri\<close>
  holds the given direction normalized and scaled by \<open>2\<pi>/\<lambda>\<close> (for a direction
  that is not the zero vector the normalized vector has length 1 and the stored
  one length \<open>|2\<pi>/\<lambda>|\<close>).  The linear and the area entry point leave \<^verbatim>\<open>rcch\<close>
  as it was.
\<close>
theorem beam_buffer_effect:
  "(fst (ang2q_conversion sampleAngles detectorAngles qpos ri Ns Nd Npoints sampleAxis detectorAxis lambda) = 0 \<longrightarrow>
      snd (snd (ang2q_conversion sampleAngles detectorAngles qpos ri Ns Nd Npoints sampleAxis detectorAxis lambda)) = vecmul (normalize_v ri) (2 * pi / lambda)
      \<and> (norm_v ri \<noteq> 0 \<longrightarrow>
           norm_v (normalize_v ri) = 1 \<and> norm_v (snd (snd (ang2q_conversion sampleAngles detectorAngles qpos ri Ns Nd Npoints sampleAxis detectorAxis lambda))) = \<bar>2 * pi / lambda\<bar>))
   \<and> snd (snd (ang2q_conversion_linear sampleAngles detectorAngles qpos rcch Ns Nd Npoints sampleAxis detectorAxis cch dpixel roi dir lambda)) = rcch
   \<and> snd (snd (ang2q_conversion_area sampleAngles detectorAngles qpos rcch Ns Nd Npoints sampleAxis detectorAxis cch1 cch2 dpixel1 dpixel2 roi dir1 dir2 lambda)) = rcch"
proof (intro conjI impI)
  assume ok: "fst (ang2q_conversion sampleAngles detectorAngles qpos ri Ns Nd Npoints sampleAxis detectorAxis lambda) = 0"
  have "\<not> (axes_status sampleAxis Ns \<noteq> 0 \<or> axes_status detectorAxis Nd \<noteq> 0)"
  proof
    assume "axes_status sampleAxis Ns \<noteq> 0 \<or> axes_status detectorAxis Nd \<noteq> 0"
    then have "fst (ang2q_conversion sampleAngles detectorAngles qpos ri Ns Nd Npoints sampleAxis detectorAxis lambda) = 1"
      by (simp add: ang2q_conversion_fail)
    with ok show False by simp
  qed
  then show r: "snd (snd (ang2q_conversion sampleAngles detectorAngles qpos ri Ns Nd Npoints sampleAxis detectorAxis lambda)) = vecmul (normalize_v ri) (2 * pi / lambda)"
    by (simp add: ang2q_conversion_ok(2) M_2PI_def)
  assume nz: "norm_v ri \<noteq> 0"
  then show "norm_v (normalize_v ri) = 1" by (rule norm_v_normalize_v)
  then show "norm_v (snd (snd (ang2q_conversion sampleAngles detectorAngles qpos ri Ns Nd Npoints sampleAxis detectorAxis lambda))) = \<bar>2 * pi / lambda\<bar>"
    by (simp add: r norm_v_vecmul)
next
  show "snd (snd (ang2q_conversion_linear sampleAngles detectorAngles qpos rcch Ns Nd Npoints sampleAxis detectorAxis cch dpixel roi dir lambda)) = rcch" by (rule ang2q_conversion_linear_rcch)
  show "snd (snd (ang2q_conversion_area sampleAngles detectorAngles qpos rcch Ns Nd Npoints sampleAxis detectorAxis cch1 cch2 dpixel1 dpixel2 roi dir1 dir2 lambda)) = rcch" by (rule ang2q_conversion_area_rcch)
qed

theorem beam_buffer_effect_witness:
  "fst (ang2q_conversion [0] [0] [7, 7, 7] [0, 0, 2] 1 1 1 ''x+'' ''x+'' (2 * pi / 5)) = 0
   \<and> norm_v [0, 0, 2] \<noteq> 0
   \<and> snd (snd (ang2q_conversion [0] [0] [7, 7, 7] [0, 0, 2] 1 1 1 ''x+'' ''x+''
          (2 * pi / 5))) = [0, 0, 5]"
  using beam_buffer_effect[where sampleAngles = "[0]" and detectorAngles = "[0]"
      and qpos = "[7, 7, 7]" and ri = "[0, 0, 2]" and rcch = "[0, 0, 1]"
      and Ns = 1 and Nd = 1 and Npoints = 1 and sampleAxis = "''x+''"
      and detectorAxis = "''x+''" and lambda = "2 * pi / 5" and cch = 0 and dpixel = 1
      and roi = "[0, 1, 0, 1]" and dir = "''y-''" and ?cch1.0 = 0 and ?cch2.0 = 0
      and ?dpixel1.0 = 1 and ?dpixel2.0 = 1 and ?dir1.0 = "''y-''" and ?dir2.0 = "''z+''"]
    ang2q_conversion_ok(1)[of "''x+''" 1 "''x+''" 1 "[0]" "[0]" "[7, 7, 7]" "[0, 0, 2]" 1
      "2 * pi / 5"]
  by (simp add: eval_resolvers norm_v_def normalize_v_def vecmul_def)

section \<open>Matrix algebra of the primitives\<close>

lemma matvec_matmul: "matvec (matmul A B) v = matvec A (matvec B v)"
  by (simp add: matvec_def matmul_def algebra_simps)

lemma matvec_components: "[matvec m v ! 0, matvec m v ! 1, matvec m v ! 2] = matvec m v"
  by (simp add: matvec_def)

lemma determinant_ident: "determinant ident = 1"
  by (simp add: determinant_def ident_def)

lemma determinant_matmul: "determinant (matmul A B) = determinant A * determinant B"
  by (simp add: determinant_def matmul_def algebra_simps)

lemma determinant_call_rot: "determinant (call_rot f a) = 1"
proof -
  have "cos a * cos a + sin a * sin a = 1"
    using sin_cos_squared_add3[of a] by simp
  then show ?thesis
    by (cases f) (simp_all add: determinant_def)
qed

lemma determinant_foldl_matmul:
  "\<forall>m \<in> set ms. determinant m = 1 \<Longrightarrow> determinant (foldl matmul A ms) = determinant A"
  by (induction ms arbitrary: A) (simp_all add: determinant_matmul)

lemma determinant_compose_circles:
  "determinant (compose (circle_matrices axes angles N i)) = 1"
  by (simp add: compose_def circle_matrices_def determinant_foldl_matmul determinant_ident
        determinant_call_rot)

lemma inversemat_scaled:
  "inversemat m =
     [(m ! 4 * m ! 8 - m ! 5 * m ! 7) * inverse (determinant m),
      (m ! 2 * m ! 7 - m ! 1 * m ! 8) * inverse (determinant m),
      (m ! 1 * m ! 5 - m ! 2 * m ! 4) * inverse (determinant m),
      (m ! 5 * m ! 6 - m ! 3 * m ! 8) * inverse (determinant m),
      (m ! 0 * m ! 8 - m ! 2 * m ! 6) * inverse (determinant m),
      (m ! 2 * m ! 3 - m ! 0 * m ! 5) * inverse (determinant m),
      (m ! 3 * m ! 7 - m ! 4 * m ! 6) * inverse (determinant m),
      (m ! 1 * m ! 6 - m ! 0 * m ! 7) * inverse (determinant m),
      (m ! 0 * m ! 4 - m ! 1 * m ! 3) * inverse (determinant m)]"
  by (simp add: inversemat_def Let_def divide_inverse)

lemma matmul_inversemat:
  assumes "determinant m \<noteq> 0"
  shows "matmul m (inversemat m) = ident"
proof -
  define c where "c = inverse (determinant m)"
  have cd: "determinant m * c = 1"
    using assms by (simp add: c_def)
  have "matmul m (inversemat m)
        = [determinant m * c, 0, 0,  0, determinant m * c, 0,  0, 0, determinant m * c]"
    unfolding inversemat_scaled c_def[symmetric]
    by (simp add: matmul_def determinant_def algebra_simps)
  then show ?thesis
    by (simp add: cd ident_def)
qed

lemma inversemat_matmul:
  assumes "determinant m \<noteq> 0"
  shows "matmul (inversemat m) m = ident"
proof -
  define c where "c = inverse (determinant m)"
  have cd: "determinant m * c = 1"
    using assms by (simp add: c_def)
  have "matmul (inversemat m) m
        = [determinant m * c, 0, 0,  0, determinant m * c, 0,  0, 0, determinant m * c]"
    unfolding inversemat_scaled c_def[symmetric]
    by (simp add: matmul_def determinant_def algebra_simps)
  then show ?thesis
    by (simp add: cd ident_def)
qed

section \<open>Stores into the output buffer\<close>

lemma length_store3: "length (store3 q off r) = length q"
  by (simp add: store3_def store_def)

lemma slot_store3:
  assumes "0 \<le> k" "3 * nat k + 2 < length q"
  shows "slot (store3 q (3 * k) r) m = (if m = nat k then [r ! 0, r ! 1, r ! 2] else slot q m)"
proof -
  have off: "nat (3 * k) = 3 * nat k" "nat (3 * k + 1) = 3 * nat k + 1"
    "nat (3 * k + 2) = 3 * nat k + 2"
    using assms(1) by (simp_all add: nat_mult_distrib nat_add_distrib)
  have "store3 q (3 * k) r
        = q[nat (3 * k) := r ! 0, nat (3 * k + 1) := r ! 1, nat (3 * k + 2) := r ! 2]"
    using assms(1) by (simp add: store3_def store_def)
  then show ?thesis
    using assms(2) unfolding slot_def off
    by (auto simp: nth_list_update)
qed

lemma fold_store3_length:
  "length (fold (\<lambda>x q. store3 q (off x) (g x)) xs q) = length q"
  by (induction xs arbitrary: q) (simp_all add: length_store3)

lemma fold_store3_slot:
  assumes "\<forall>x \<in> set xs. off x = 3 * k x \<and> 0 \<le> k x \<and> 3 * nat (k x) + 2 < length q"
    and "inj_on k (set xs)" and "x \<in> set xs"
  shows "slot (fold (\<lambda>x q. store3 q (off x) (g x)) xs q) (nat (k x))
         = [g x ! 0, g x ! 1, g x ! 2]"
  using assms
proof (induction xs rule: rev_induct)
  case Nil
  then show ?case by simp
next
  case (snoc y ys)
  let ?q = "fold (\<lambda>x q. store3 q (off x) (g x)) ys q"
  have y: "off y = 3 * k y" "0 \<le> k y" "3 * nat (k y) + 2 < length ?q"
    using snoc.prems(1) by (simp_all add: fold_store3_length)
  have st: "slot (store3 ?q (off y) (g y)) m
            = (if m = nat (k y) then [g y ! 0, g y ! 1, g y ! 2] else slot ?q m)" for m
    using slot_store3[OF y(2,3)] by (simp add: y(1))
  show ?case
  proof (cases "k x = k y")
    case True
    then have "x = y"
      using snoc.prems(2,3) by (auto simp: inj_on_def)
    then show ?thesis by (simp add: st)
  next
    case False
    then have xin: "x \<in> set ys" using snoc.prems(3) by auto
    then have "0 \<le> k x" using snoc.prems(1) by simp
    with False y(2) have ne: "nat (k x) \<noteq> nat (k y)" by simp
    have "inj_on k (set ys)"
      using snoc.prems(2) by (auto simp: inj_on_def)
    then have "slot ?q (nat (k x)) = [g x ! 0, g x ! 1, g x ! 2]"
      using snoc.IH snoc.prems(1) xin by simp
    then show ?thesis by (simp add: st ne)
  qed
qed

section \<open>Nested loops\<close>

lemma for_loop_fold_fun: "for_loop i hi body = fold body [i..hi - 1]"
  by (rule ext) (rule for_loop_fold)

lemma fold_fold_product:
  "fold (\<lambda>i. fold (\<lambda>j. F (i, j)) js) is s = fold F (List.product is js) s"
  by (induction "is" arbitrary: s) (simp_all add: fold_map comp_def)

lemma set_upto_less: "{a..b - 1} = {a..<b::int}"
  by auto

lemma for_loop1_slot:
  assumes "\<forall>i. a \<le> i \<and> i < b \<longrightarrow> off i = 3 * k i \<and> 0 \<le> k i \<and> 3 * nat (k i) + 2 < length q"
    and "inj_on k {a..<b}" and "a \<le> i" "i < b"
  shows "slot (for_loop a b (\<lambda>i q. store3 q (off i) (g i)) q) (nat (k i))
         = [g i ! 0, g i ! 1, g i ! 2]"
  unfolding for_loop_fold_fun
  by (rule fold_store3_slot) (use assms in \<open>simp_all add: set_upto_less\<close>)

lemma for_loop2_slot:
  assumes "\<forall>i j. a \<le> i \<and> i < b \<and> c \<le> j \<and> j < d \<longrightarrow>
             off i j = 3 * k i j \<and> 0 \<le> k i j \<and> 3 * nat (k i j) + 2 < length q"
    and "inj_on (\<lambda>(i, j). k i j) ({a..<b} \<times> {c..<d})"
    and "a \<le> i" "i < b" "c \<le> j" "j < d"
  shows "slot (for_loop a b (\<lambda>i. for_loop c d (\<lambda>j q. store3 q (off i j) (g i j))) q)
           (nat (k i j))
         = [g i j ! 0, g i j ! 1, g i j ! 2]"
proof -
  let ?xs = "List.product [a..b - 1] [c..d - 1]"
  have "for_loop a b (\<lambda>i. for_loop c d (\<lambda>j q. store3 q (off i j) (g i j))) q
        = fold (\<lambda>x q. store3 q (off (fst x) (snd x)) (g (fst x) (snd x))) ?xs q"
    unfolding for_loop_fold_fun
    using fold_fold_product[of "\<lambda>x q. store3 q (off (fst x) (snd x)) (g (fst x) (snd x))"
        "[c..d - 1]" "[a..b - 1]" q]
    by simp
  moreover have "slot (fold (\<lambda>x q. store3 q (off (fst x) (snd x)) (g (fst x) (snd x))) ?xs q)
                   (nat (k (fst (i, j)) (snd (i, j))))
                 = [g (fst (i, j)) (snd (i, j)) ! 0, g (fst (i, j)) (snd (i, j)) ! 1,
                    g (fst (i, j)) (snd (i, j)) ! 2]"
  proof (rule fold_store3_slot[where k = "\<lambda>x. k (fst x) (snd x)"])
    show "\<forall>x \<in> set ?xs. off (fst x) (snd x) = 3 * k (fst x) (snd x) \<and> 0 \<le> k (fst x) (snd x)
            \<and> 3 * nat (k (fst x) (snd x)) + 2 < length q"
      using assms(1) by (auto simp: set_upto_less)
    show "inj_on (\<lambda>x. k (fst x) (snd x)) (set ?xs)"
      using assms(2) by (simp add: set_upto_less case_prod_unfold)
    show "(i, j) \<in> set ?xs"
      using assms(3-6) by (simp add: set_upto_less)
  qed
  ultimately show ?thesis by simp
qed

lemma for_loop3_slot:
  assumes "\<forall>i j l. a \<le> i \<and> i < b \<and> c \<le> j \<and> j < d \<and> e \<le> l \<and> l < f \<longrightarrow>
             off i j l = 3 * k i j l \<and> 0 \<le> k i j l \<and> 3 * nat (k i j l) + 2 < length q"
    and "inj_on (\<lambda>(i, j, l). k i j l) ({a..<b} \<times> {c..<d} \<times> {e..<f})"
    and "a \<le> i" "i < b" "c \<le> j" "j < d" "e \<le> l" "l < f"
  shows "slot (for_loop a b (\<lambda>i. for_loop c d (\<lambda>j. for_loop e f
                 (\<lambda>l q. store3 q (off i j l) (g i j l)))) q)
           (nat (k i j l))
         = [g i j l ! 0, g i j l ! 1, g i j l ! 2]"
proof -
  let ?ys = "List.product [c..d - 1] [e..f - 1]"
  let ?xs = "List.product [a..b - 1] ?ys"
  let ?W = "\<lambda>x q. store3 q (off (fst x) (fst (snd x)) (snd (snd x)))
                      (g (fst x) (fst (snd x)) (snd (snd x)))"
  have inner: "fold (\<lambda>j. fold (\<lambda>l q. store3 q (off i' j l) (g i' j l)) [e..f - 1]) [c..d - 1]
               = fold (\<lambda>y q. store3 q (off i' (fst y) (snd y)) (g i' (fst y) (snd y))) ?ys"
    for i'
  proof (rule ext)
    fix s
    show "fold (\<lambda>j. fold (\<lambda>l q. store3 q (off i' j l) (g i' j l)) [e..f - 1]) [c..d - 1] s
          = fold (\<lambda>y q. store3 q (off i' (fst y) (snd y)) (g i' (fst y) (snd y))) ?ys s"
      using fold_fold_product[of
          "\<lambda>y q. store3 q (off i' (fst y) (snd y)) (g i' (fst y) (snd y))"
          "[e..f - 1]" "[c..d - 1]" s]
      by simp
  qed
  have "for_loop a b (\<lambda>i. for_loop c d (\<lambda>j. for_loop e f
           (\<lambda>l q. store3 q (off i j l) (g i j l)))) q
        = fold (\<lambda>i. fold (\<lambda>y. ?W (i, y)) ?ys) [a..b - 1] q"
    unfolding for_loop_fold_fun by (simp add: inner)
  also have "\<dots> = fold ?W ?xs q"
    by (rule fold_fold_product)
  finally have flat: "for_loop a b (\<lambda>i. for_loop c d (\<lambda>j. for_loop e f
           (\<lambda>l q. store3 q (off i j l) (g i j l)))) q = fold ?W ?xs q" .
  have "slot (fold ?W ?xs q)
          (nat (k (fst (i, j, l)) (fst (snd (i, j, l))) (snd (snd (i, j, l)))))
        = [g (fst (i, j, l)) (fst (snd (i, j, l))) (snd (snd (i, j, l))) ! 0,
           g (fst (i, j, l)) (fst (snd (i, j, l))) (snd (snd (i, j, l))) ! 1,
           g (fst (i, j, l)) (fst (snd (i, j, l))) (snd (snd (i, j, l))) ! 2]"
  proof (rule fold_store3_slot[where k = "\<lambda>x. k (fst x) (fst (snd x)) (snd (snd x))"])
    show "\<forall>x \<in> set ?xs. off (fst x) (fst (snd x)) (snd (snd x))
              = 3 * k (fst x) (fst (snd x)) (snd (snd x))
            \<and> 0 \<le> k (fst x) (fst (snd x)) (snd (snd x))
            \<and> 3 * nat (k (fst x) (fst (snd x)) (snd (snd x))) + 2 < length q"
      using assms(1) by (auto simp: set_upto_less)
    show "inj_on (\<lambda>x. k (fst x) (fst (snd x)) (snd (snd x))) (set ?xs)"
      using assms(2) by (simp add: set_upto_less case_prod_unfold)
    show "(i, j, l) \<in> set ?xs"
      using assms(3-8) by (simp add: set_upto_less)
  qed
  with flat show ?thesis by simp
qed

section \<open>Index arithmetic\<close>

lemma radix_inj:
  fixes N :: int
  assumes "0 \<le> a" "a < N" "0 \<le> a'" "a' < N" "i * N + a = i' * N + a'"
  shows "i = i' \<and> a = a'"
proof -
  have "(i * N + a) div N = i" "(i' * N + a') div N = i'"
    using assms(1-4) by simp_all
  with assms(5) have "i = i'" by simp
  with assms(5) show ?thesis by simp
qed

lemma radix_bound:
  fixes N :: int
  assumes "0 \<le> i" "i < M" "0 \<le> a" "a < N"
  shows "0 \<le> i * N + a" and "i * N + a < M * N"
proof -
  have N: "0 \<le> N" using assms(3,4) by simp
  show "0 \<le> i * N + a" using assms(1,3) N by simp
  have "i * N + a < (i + 1) * N" using assms(4) by (simp add: algebra_simps)
  also have "\<dots> \<le> M * N" using assms(2) N by (intro mult_right_mono) simp_all
  finally show "i * N + a < M * N" .
qed

lemma slot_in_buffer:
  assumes "0 \<le> k" "k < M" "3 * nat M \<le> length q"
  shows "3 * nat k + 2 < length q"
  using assms by linarith

section \<open>The composed rotation of one position\<close>

lemma upto_nat: "[0..int n - 1] = map int [0..<n]"
proof (induction n)
  case 0
  show ?case by simp
next
  case (Suc n)
  have "[0..int (Suc n) - 1] = [0..int n - 1] @ [int n]"
    using upto_rec2[of 0 "int n"] by simp
  with Suc show ?case by simp
qed

lemma upto_map_int: "[0..N - 1] = map int [0..<nat N]"
proof (cases "0 \<le> N")
  case True
  then show ?thesis using upto_nat[of "nat N"] by simp
next
  case False
  then show ?thesis by simp
qed

lemma int32_id: "INT_MIN \<le> x \<Longrightarrow> x \<le> INT_MAX \<Longrightarrow> int32 x = x"
  by (simp add: int32_def INT_MIN_def INT_MAX_def)

lemma int32_id_nonneg: "0 \<le> x \<Longrightarrow> x \<le> INT_MAX \<Longrightarrow> int32 x = x"
  by (rule int32_id) (simp_all add: INT_MIN_def)

lemma read_at_nonneg: "0 \<le> k \<Longrightarrow> read_at xs k = xs ! nat k"
  by (simp add: read_at_def)

lemma angle_index:
  assumes "0 \<le> i" "i < M" "N * M \<le> INT_MAX" "j < nat N"
  shows "read_at angles (add32 (mul32 N i) (int j)) = angles ! (nat N * nat i + j)"
proof -
  from assms(4) have N: "0 < N" and j: "int j < N" by simp_all
  have "N * (i + 1) \<le> N * M"
    using assms(2) N by (intro mult_left_mono) simp_all
  then have top: "N * i + N \<le> INT_MAX"
    using assms(3) by (simp add: algebra_simps)
  have lo: "0 \<le> N * i" using assms(1) N by simp
  have m: "mul32 N i = N * i"
    unfolding mul32_def using lo top N by (intro int32_id_nonneg) simp_all
  have a: "add32 (N * i) (int j) = N * i + int j"
    unfolding add32_def using lo top j by (intro int32_id_nonneg) simp_all
  have "nat (N * i + int j) = nat N * nat i + j"
    using assms(1) N by (simp add: nat_add_distrib nat_mult_distrib)
  then show ?thesis
    using lo by (simp add: m a read_at_nonneg)
qed

lemma rotate_circles_compose:
  assumes "valid_axes axes" "length axes = 2 * nat N"
    and "0 \<le> i" "i < M" "N * M \<le> INT_MAX"
  shows "rotate_circles (map Some (generators axes)) angles N i ident
         = compose (circle_matrices axes angles N i)"
proof -
  have len: "length (generators axes) = nat N"
    using assms(1,2) length_generators[of axes] by simp
  have step: "matmul m (call_rot (the (map Some (generators axes) ! j))
                  (read_at angles (add32 (mul32 N i) (int j))))
              = matmul m (call_rot (generators axes ! j) (angles ! (nat N * nat i + j)))"
    if j: "j < nat N" for j m
    using j len angle_index[OF assms(3-5) j] by simp
  have "rotate_circles (map Some (generators axes)) angles N i ident
        = fold (\<lambda>j m. matmul m (call_rot (the (map Some (generators axes) ! nat (int j)))
                  (read_at angles (add32 (mul32 N i) (int j))))) [0..<nat N] ident"
    by (simp add: rotate_circles_def Let_def for_loop_fold upto_map_int fold_map comp_def)
  also have "\<dots> = fold (\<lambda>j m. matmul m (call_rot (generators axes ! j)
                  (angles ! (nat N * nat i + j)))) [0..<nat N] ident"
    by (rule fold_cong) (simp_all add: step fun_eq_iff)
  also have "\<dots> = compose (circle_matrices axes angles N i)"
    by (simp add: compose_def circle_matrices_def foldl_conv_fold fold_map comp_def)
  finally show ?thesis .
qed

lemma call_rot_zero: "call_rot f 0 = ident"
  by (cases f) (simp_all add: ident_def)

lemma matmul_ident: "matmul ident ident = ident"
  by (simp add: matmul_def ident_def)

lemma foldl_matmul_ident:
  "\<forall>m \<in> set ms. m = ident \<Longrightarrow> foldl matmul ident ms = ident"
  by (induction ms) (simp_all add: matmul_ident)

lemma compose_zero_angles:
  assumes "\<forall>j < nat N. angles ! (nat N * nat i + j) = 0"
  shows "compose (circle_matrices axes angles N i) = ident"
  using assms
  by (auto simp: compose_def circle_matrices_def call_rot_zero intro!: foldl_matmul_ident)

section \<open>Index maps\<close>

lemma linear_slot_bound:
  assumes "0 \<le> i" "i < M" "roi ! 0 \<le> p" "p < roi ! 1"
  shows "0 \<le> linear_slot roi i p" and "linear_slot roi i p < M * (roi ! 1 - roi ! 0)"
  using radix_bound[of i M "p - roi ! 0" "roi ! 1 - roi ! 0"] assms
  by (simp_all add: linear_slot_def)

lemma linear_slot_inj:
  "inj_on (\<lambda>(i, p). linear_slot roi i p) (I \<times> {roi ! 0..<roi ! 1})"
proof (rule inj_onI, clarify)
  fix i p i' p'
  assume "p \<in> {roi ! 0..<roi ! 1}" "p' \<in> {roi ! 0..<roi ! 1}"
    and "linear_slot roi i p = linear_slot roi i' p'"
  then have "i = i' \<and> p - roi ! 0 = p' - roi ! 0"
    by (intro radix_inj[of _ "roi ! 1 - roi ! 0"]) (simp_all add: linear_slot_def)
  then show "i = i' \<and> p = p'" by simp
qed

lemma area_slot_radix:
  "area_slot roi i p1 p2
   = (i * (roi ! 3 - roi ! 2) + (p2 - roi ! 2)) * (roi ! 1 - roi ! 0) + (p1 - roi ! 0)"
  by (simp add: area_slot_def algebra_simps)

lemma area_slot_bound:
  assumes "0 \<le> i" "i < M" "roi ! 0 \<le> p1" "p1 < roi ! 1" "roi ! 2 \<le> p2" "p2 < roi ! 3"
  shows "0 \<le> area_slot roi i p1 p2"
    and "area_slot roi i p1 p2 < M * (roi ! 1 - roi ! 0) * (roi ! 3 - roi ! 2)"
proof -
  let ?r = "i * (roi ! 3 - roi ! 2) + (p2 - roi ! 2)"
  have r: "0 \<le> ?r" "?r < M * (roi ! 3 - roi ! 2)"
    using radix_bound[of i M "p2 - roi ! 2" "roi ! 3 - roi ! 2"] assms by simp_all
  have "0 \<le> ?r * (roi ! 1 - roi ! 0) + (p1 - roi ! 0)"
    and "?r * (roi ! 1 - roi ! 0) + (p1 - roi ! 0)
         < M * (roi ! 3 - roi ! 2) * (roi ! 1 - roi ! 0)"
    using radix_bound[OF r, of "p1 - roi ! 0" "roi ! 1 - roi ! 0"] assms by simp_all
  then show "0 \<le> area_slot roi i p1 p2"
    and "area_slot roi i p1 p2 < M * (roi ! 1 - roi ! 0) * (roi ! 3 - roi ! 2)"
    by (simp_all add: area_slot_radix mult_ac)
qed

lemma area_slot_inj:
  "inj_on (\<lambda>(i, p1, p2). area_slot roi i p1 p2)
     (I \<times> {roi ! 0..<roi ! 1} \<times> {roi ! 2..<roi ! 3})"
proof (rule inj_onI)
  fix x y
  assume x: "x \<in> I \<times> {roi ! 0..<roi ! 1} \<times> {roi ! 2..<roi ! 3}"
    and y: "y \<in> I \<times> {roi ! 0..<roi ! 1} \<times> {roi ! 2..<roi ! 3}"
    and xy: "(case x of (i, p1, p2) \<Rightarrow> area_slot roi i p1 p2)
             = (case y of (i, p1, p2) \<Rightarrow> area_slot roi i p1 p2)"
  obtain i p1 p2 where x_eq: "x = (i, p1, p2)" by (cases x) auto
  obtain i' p1' p2' where y_eq: "y = (i', p1', p2')" by (cases y) auto
  have r: "roi ! 0 \<le> p1" "p1 < roi ! 1" "roi ! 2 \<le> p2" "p2 < roi ! 3"
    "roi ! 0 \<le> p1'" "p1' < roi ! 1" "roi ! 2 \<le> p2'" "p2' < roi ! 3"
    using x y by (simp_all add: x_eq y_eq)
  have eq: "area_slot roi i p1 p2 = area_slot roi i' p1' p2'"
    using xy by (simp add: x_eq y_eq)
  have outer: "i * (roi ! 3 - roi ! 2) + (p2 - roi ! 2)
               = i' * (roi ! 3 - roi ! 2) + (p2' - roi ! 2)
             \<and> p1 - roi ! 0 = p1' - roi ! 0"
    using r eq by (intro radix_inj[of _ "roi ! 1 - roi ! 0"]) (simp_all add: area_slot_radix)
  then have "i = i' \<and> p2 - roi ! 2 = p2' - roi ! 2"
    using r by (intro radix_inj[of _ "roi ! 3 - roi ! 2"]) simp_all
  with outer show "x = y" by (simp add: x_eq y_eq)
qed

section \<open>Store offsets within the range of \<^verbatim>\<open>int\<close>\<close>

lemma point_offset:
  assumes "0 \<le> i" "i < M" "3 * M \<le> INT_MAX"
  shows "mul32 3 i = 3 * i"
  unfolding mul32_def using assms by (intro int32_id_nonneg) simp_all

text \<open>
  Beyond that range the offset wraps around: the product \<open>3 * i\<close> of position
  750000000 is negative, and a store at such an offset leaves the buffer as it is.
\<close>

lemma point_offset_wraps: "mul32 3 750000000 = - 2044967296"
  by (simp add: mul32_def int32_def)

lemma store3_negative: "off + 2 < 0 \<Longrightarrow> store3 q off r = q"
  by (simp add: store3_def store_def)

lemma linear_offset:
  assumes "0 \<le> i" "i < M" "roi ! 0 \<le> j" "j < roi ! 1"
    and "INT_MIN \<le> roi ! 0" "M * (roi ! 1 - roi ! 0) + roi ! 0 \<le> INT_MAX"
    and "3 * (M * (roi ! 1 - roi ! 0)) \<le> INT_MAX"
  shows "sub32 (roi ! 1) (roi ! 0) = roi ! 1 - roi ! 0"
    and "mul32 3 (sub32 (add32 (mul32 i (roi ! 1 - roi ! 0)) j) (roi ! 0))
         = 3 * linear_slot roi i j"
proof -
  define N where "N = roi ! 1 - roi ! 0"
  define k where "k = linear_slot roi i j"
  have N: "0 < N" using assms(3,4) unfolding N_def by linarith
  have k: "0 \<le> k" "k < M * N"
    using linear_slot_bound[OF assms(1-4)] unfolding k_def N_def by blast+
  have k_eq: "k = i * N + (j - roi ! 0)"
    unfolding k_def N_def linear_slot_def ..
  have iN: "0 \<le> i * N" using assms(1) N by simp
  have MN: "N \<le> M * N"
    using assms(1,2) N mult_right_mono[of 1 M N] by simp
  have h6: "M * N + roi ! 0 \<le> INT_MAX" and h7: "3 * (M * N) \<le> INT_MAX"
    using assms(6,7) unfolding N_def by blast+
  have top: "M * N \<le> INT_MAX" using h7 k by linarith
  have e0: "int32 N = N"
    using N MN top by (intro int32_id_nonneg) linarith+
  have e1: "int32 (i * N) = i * N"
    using iN k k_eq top assms(3) by (intro int32_id_nonneg) linarith+
  have e2: "int32 (i * N + j) = i * N + j"
    using iN k k_eq h6 assms(3,5) by (intro int32_id) linarith+
  have k_eq': "i * N + j - roi ! 0 = k" using k_eq by linarith
  have e3: "int32 (i * N + j - roi ! 0) = k"
    unfolding k_eq' using k top by (intro int32_id_nonneg) linarith+
  have e4: "int32 (3 * k) = 3 * k"
    using k h7 by (intro int32_id_nonneg) linarith+
  show "sub32 (roi ! 1) (roi ! 0) = roi ! 1 - roi ! 0"
    unfolding sub32_def N_def[symmetric] by (rule e0)
  show "mul32 3 (sub32 (add32 (mul32 i (roi ! 1 - roi ! 0)) j) (roi ! 0))
         = 3 * linear_slot roi i j"
    unfolding mul32_def sub32_def add32_def N_def[symmetric] k_def[symmetric]
    by (simp only: e1 e2 e3 e4)
qed

lemma area_offset:
  assumes "0 \<le> i" "i < M" "roi ! 0 \<le> j1" "j1 < roi ! 1" "roi ! 2 \<le> j2" "j2 < roi ! 3"
    and "3 * (M * (roi ! 1 - roi ! 0) * (roi ! 3 - roi ! 2)) \<le> INT_MAX"
  shows "sub32 (roi ! 1) (roi ! 0) = roi ! 1 - roi ! 0"
    and "sub32 (roi ! 3) (roi ! 2) = roi ! 3 - roi ! 2"
    and "mul32 (roi ! 1 - roi ! 0) (roi ! 3 - roi ! 2)
         = (roi ! 1 - roi ! 0) * (roi ! 3 - roi ! 2)"
    and "mul32 3
           (add32
              (add32 (mul32 i ((roi ! 1 - roi ! 0) * (roi ! 3 - roi ! 2)))
                 (mul32 (roi ! 1 - roi ! 0) (sub32 j2 (roi ! 2))))
              (sub32 j1 (roi ! 0)))
         = 3 * area_slot roi i j1 j2"
proof -
  define N1 where "N1 = roi ! 1 - roi ! 0"
  define N2 where "N2 = roi ! 3 - roi ! 2"
  define a where "a = i * (N1 * N2)"
  define d where "d = j2 - roi ! 2"
  define b where "b = N1 * d"
  define c where "c = j1 - roi ! 0"
  define k where "k = area_slot roi i j1 j2"
  have N: "0 < N1" "0 < N2" using assms(3-6) unfolding N1_def N2_def by linarith+
  have k: "0 \<le> k" "k < M * N1 * N2"
    using area_slot_bound[OF assms(1-6)] unfolding k_def N1_def N2_def by blast+
  have k_eq: "k = a + b + c"
    unfolding k_def a_def b_def c_def d_def N1_def N2_def area_slot_def
    by (simp add: algebra_simps)
  have d: "0 \<le> d" "d < N2" using assms(5,6) unfolding d_def N2_def by linarith+
  have nn: "0 \<le> a" "0 \<le> b" "0 \<le> c"
    using assms(1,3) N d(1) by (simp_all add: a_def b_def c_def)
  have N12: "N1 \<le> N1 * N2" "N2 \<le> N1 * N2"
    using N mult_left_mono[of 1 N2 N1] mult_right_mono[of 1 N1 N2] by simp_all
  have MN: "N1 * N2 \<le> M * N1 * N2"
    using assms(1,2) N mult_right_mono[of 1 M "N1 * N2"] by (simp add: mult.assoc)
  have h7: "3 * (M * N1 * N2) \<le> INT_MAX"
    using assms(7) unfolding N1_def N2_def by blast
  have top: "M * N1 * N2 \<le> INT_MAX" using h7 k by linarith
  have e_n1: "int32 N1 = N1"
    using N N12 MN top by (intro int32_id_nonneg) linarith+
  have e_n2: "int32 N2 = N2"
    using N N12 MN top by (intro int32_id_nonneg) linarith+
  have e_n12: "int32 (N1 * N2) = N1 * N2"
    using N N12 MN top by (intro int32_id_nonneg) linarith+
  have e1: "int32 a = a"
    using nn k k_eq top by (intro int32_id_nonneg) linarith+
  have e2: "int32 d = d"
    using d N12 MN top by (intro int32_id_nonneg) linarith+
  have e3: "int32 b = b"
    using nn k k_eq top by (intro int32_id_nonneg) linarith+
  have e4: "int32 (a + b) = a + b"
    using nn k k_eq top by (intro int32_id_nonneg) linarith+
  have e5: "int32 c = c"
    using nn k k_eq top by (intro int32_id_nonneg) linarith+
  have e6: "int32 (a + b + c) = k"
    using int32_id_nonneg[of k] k k_eq top by simp
  have e7: "int32 (3 * k) = 3 * k"
    using k h7 by (intro int32_id_nonneg) linarith+
  show "sub32 (roi ! 1) (roi ! 0) = roi ! 1 - roi ! 0"
    unfolding sub32_def N1_def[symmetric] by (rule e_n1)
  show "sub32 (roi ! 3) (roi ! 2) = roi ! 3 - roi ! 2"
    unfolding sub32_def N2_def[symmetric] by (rule e_n2)
  show "mul32 (roi ! 1 - roi ! 0) (roi ! 3 - roi ! 2)
         = (roi ! 1 - roi ! 0) * (roi ! 3 - roi ! 2)"
    unfolding mul32_def N1_def[symmetric] N2_def[symmetric] by (rule e_n12)
  show "mul32 3
           (add32
              (add32 (mul32 i ((roi ! 1 - roi ! 0) * (roi ! 3 - roi ! 2)))
                 (mul32 (roi ! 1 - roi ! 0) (sub32 j2 (roi ! 2))))
              (sub32 j1 (roi ! 0)))
         = 3 * area_slot roi i j1 j2"
    unfolding mul32_def sub32_def add32_def N1_def[symmetric] N2_def[symmetric]
      k_def[symmetric] a_def[symmetric] d_def[symmetric] c_def[symmetric]
    by (simp only: e1 e2 b_def[symmetric] e3 e4 e5 e6 e7)
qed

section \<open>The output of the entry points\<close>

lemma normalize_v_cong:
  "v ! 0 = w ! 0 \<Longrightarrow> v ! 1 = w ! 1 \<Longrightarrow> v ! 2 = w ! 2 \<Longrightarrow> normalize_v v = normalize_v w"
  by (simp add: normalize_v_def norm_v_def)

lemma ang2q_conversion_slot:
  assumes "valid_axes sampleAxis" "length sampleAxis = 2 * nat Ns"
    and "valid_axes detectorAxis" "length detectorAxis = 2 * nat Nd"
    and "0 \<le> i" "i < Npoints" "3 * nat Npoints \<le> length qpos"
    and "Ns * Npoints \<le> INT_MAX" "Nd * Npoints \<le> INT_MAX" "3 * Npoints \<le> INT_MAX"
  shows "slot (fst (snd (ang2q_conversion sampleAngles detectorAngles qpos ri Ns Nd Npoints sampleAxis detectorAxis lambda))) (nat i) = q_point (compose (circle_matrices sampleAxis sampleAngles Ns i)) (compose (circle_matrices detectorAxis detectorAngles Nd i)) (beam_k ri lambda)"
proof -
  let ?SR = "map Some (generators sampleAxis)" and ?DR = "map Some (generators detectorAxis)"
  define g where "g = (\<lambda>i. matvec
      (matmul (inversemat (rotate_circles ?SR sampleAngles Ns i ident))
         (diffmat (rotate_circles ?DR detectorAngles Nd i ident) ident))
      (vecmul (normalize_v ri) (M_2PI / lambda)))"
  have r1: "determine_axes_directions (replicate (nat Ns) None) sampleAxis Ns = (0, ?SR)"
    using assms(1,2) by (simp add: determine_axes_directions_valid)
  have r2: "determine_axes_directions (replicate (nat Nd) None) detectorAxis Nd = (0, ?DR)"
    using assms(3,4) by (simp add: determine_axes_directions_valid)
  have q: "fst (snd (ang2q_conversion sampleAngles detectorAngles qpos ri Ns Nd Npoints sampleAxis detectorAxis lambda)) = for_loop 0 Npoints (\<lambda>i q. store3 q (mul32 3 i) (g i)) qpos"
    by (simp add: ang2q_conversion_def r1 r2 Let_def g_def)
  have "slot (for_loop 0 Npoints (\<lambda>i q. store3 q (mul32 3 i) (g i)) qpos) (nat i)
        = [g i ! 0, g i ! 1, g i ! 2]"
  proof (rule for_loop1_slot[where k = "\<lambda>i. i"])
    show "\<forall>i. 0 \<le> i \<and> i < Npoints \<longrightarrow>
            mul32 3 i = 3 * i \<and> 0 \<le> i \<and> 3 * nat i + 2 < length qpos"
      using assms(7,10) by (auto intro: slot_in_buffer point_offset)
  qed (use assms(5,6) in simp_all)
  also have "\<dots> = g i"
    unfolding g_def by (rule matvec_components)
  also have "\<dots> = q_point (compose (circle_matrices sampleAxis sampleAngles Ns i)) (compose (circle_matrices detectorAxis detectorAngles Nd i)) (beam_k ri lambda)"
    using assms(1-6,8,9)
    by (simp add: g_def q_point_def beam_k_def M_2PI_def matvec_matmul
          rotate_circles_compose[where M = Npoints])
  finally show ?thesis by (simp add: q)
qed

lemma ang2q_conversion_linear_slot:
  assumes "valid_axes sampleAxis" "length sampleAxis = 2 * nat Ns"
    and "valid_axes detectorAxis" "length detectorAxis = 2 * nat Nd"
    and "axis_letter (char_at dir 0)" "sign_char (char_at dir 1)"
    and "0 \<le> i" "i < Npoints" "roi ! 0 \<le> p" "p < roi ! 1"
    and "3 * nat (Npoints * (roi ! 1 - roi ! 0)) \<le> length qpos"
    and "Ns * Npoints \<le> INT_MAX" "Nd * Npoints \<le> INT_MAX"
    and "INT_MIN \<le> roi ! 0" "Npoints * (roi ! 1 - roi ! 0) + roi ! 0 \<le> INT_MAX"
    and "3 * (Npoints * (roi ! 1 - roi ! 0)) \<le> INT_MAX"
  shows "slot (fst (snd (ang2q_conversion_linear sampleAngles detectorAngles qpos rcch Ns Nd Npoints sampleAxis detectorAxis cch dpixel roi dir lambda))) (nat (linear_slot roi i p))
         = q_pixel (compose (circle_matrices sampleAxis sampleAngles Ns i)) (compose (circle_matrices detectorAxis detectorAngles Nd i)) (linear_direction (pixel_step dir dpixel) cch rcch p)
             (normalize_v rcch) lambda"
proof -
  let ?SR = "map Some (generators sampleAxis)" and ?DR = "map Some (generators detectorAxis)"
  let ?st = "pixel_step dir dpixel"
  define g where "g = (\<lambda>i j. matvec (inversemat (rotate_circles ?SR sampleAngles Ns i ident))
      (vecmul
        (diffvec
          (matvec (rotate_circles ?DR detectorAngles Nd i ident)
            (normalize_v
              (sumvec (map (\<lambda>k. real_of_int j * ?st ! k - map (\<lambda>k. ?st ! k * cch) [0, 1, 2] ! k)
                         [0, 1, 2]) rcch)))
          (normalize_v (veccopy rcch)))
        (M_2PI / lambda)))"
  have r1: "determine_axes_directions (replicate (nat Ns) None) sampleAxis Ns = (0, ?SR)"
    using assms(1,2) by (simp add: determine_axes_directions_valid)
  have r2: "determine_axes_directions (replicate (nat Nd) None) detectorAxis Nd = (0, ?DR)"
    using assms(3,4) by (simp add: determine_axes_directions_valid)
  have r3: "determine_detector_pixel dir dpixel = (0, ?st)"
    using assms(5,6) by (simp only: determine_detector_pixel_valid pixel_step_def)
  have q: "fst (snd (ang2q_conversion_linear sampleAngles detectorAngles qpos rcch Ns Nd Npoints sampleAxis detectorAxis cch dpixel roi dir lambda))
        = for_loop 0 Npoints (\<lambda>i. for_loop (roi ! 0) (roi ! 1)
            (\<lambda>j q. store3 q (mul32 3 (sub32 (add32 (mul32 i (roi ! 1 - roi ! 0)) j) (roi ! 0)))
                      (g i j))) qpos"
    using linear_offset(1)[OF assms(7-10,14-16)]
    by (simp add: ang2q_conversion_linear_def r1 r2 r3 Let_def g_def)
  have "slot (for_loop 0 Npoints (\<lambda>i. for_loop (roi ! 0) (roi ! 1)
            (\<lambda>j q. store3 q (mul32 3 (sub32 (add32 (mul32 i (roi ! 1 - roi ! 0)) j) (roi ! 0)))
                      (g i j))) qpos)
          (nat (linear_slot roi i p))
        = [g i p ! 0, g i p ! 1, g i p ! 2]"
  proof (rule for_loop2_slot[where k = "linear_slot roi"])
    show "\<forall>i j. 0 \<le> i \<and> i < Npoints \<and> roi ! 0 \<le> j \<and> j < roi ! 1 \<longrightarrow>
            mul32 3 (sub32 (add32 (mul32 i (roi ! 1 - roi ! 0)) j) (roi ! 0))
              = 3 * linear_slot roi i j
            \<and> 0 \<le> linear_slot roi i j \<and> 3 * nat (linear_slot roi i j) + 2 < length qpos"
    proof (intro allI impI)
      fix i j
      assume r: "0 \<le> i \<and> i < Npoints \<and> roi ! 0 \<le> j \<and> j < roi ! 1"
      then have b: "0 \<le> linear_slot roi i j"
        "linear_slot roi i j < Npoints * (roi ! 1 - roi ! 0)"
        using linear_slot_bound[of i Npoints roi j] by simp_all
      have "mul32 3 (sub32 (add32 (mul32 i (roi ! 1 - roi ! 0)) j) (roi ! 0))
              = 3 * linear_slot roi i j"
        using r by (intro linear_offset(2)[OF _ _ _ _ assms(14-16)]) simp_all
      then show "mul32 3 (sub32 (add32 (mul32 i (roi ! 1 - roi ! 0)) j) (roi ! 0))
              = 3 * linear_slot roi i j
            \<and> 0 \<le> linear_slot roi i j \<and> 3 * nat (linear_slot roi i j) + 2 < length qpos"
        using b slot_in_buffer[OF b assms(11)] by simp
    qed
    show "inj_on (\<lambda>(i, j). linear_slot roi i j) ({0..<Npoints} \<times> {roi ! 0..<roi ! 1})"
      by (rule linear_slot_inj)
  qed (use assms(7-10) in simp_all)
  also have "\<dots> = g i p"
    unfolding g_def by (rule matvec_components)
  also have "\<dots> = q_pixel (compose (circle_matrices sampleAxis sampleAngles Ns i)) (compose (circle_matrices detectorAxis detectorAngles Nd i)) (linear_direction (pixel_step dir dpixel) cch rcch p)
             (normalize_v rcch) lambda"
  proof -
    have d: "normalize_v
              (sumvec (map (\<lambda>k. real_of_int p * ?st ! k - map (\<lambda>k. ?st ! k * cch) [0, 1, 2] ! k)
                         [0, 1, 2]) rcch)
             = linear_direction ?st cch rcch p"
      unfolding linear_direction_def
      by (rule normalize_v_cong) (simp_all add: sumvec_def mult.commute)
    have r: "normalize_v (veccopy rcch) = normalize_v rcch"
      by (rule normalize_v_cong) (simp_all add: veccopy_def)
    show ?thesis
      using assms(1-4,7,8,12,13)
      by (simp only: g_def d r q_pixel_def M_2PI_def
            rotate_circles_compose[where M = Npoints])
  qed
  finally show ?thesis by (simp add: q)
qed

lemma ang2q_conversion_area_slot:
  assumes "valid_axes sampleAxis" "length sampleAxis = 2 * nat Ns"
    and "valid_axes detectorAxis" "length detectorAxis = 2 * nat Nd"
    and "axis_letter (char_at dir1 0)" "sign_char (char_at dir1 1)"
    and "axis_letter (char_at dir2 0)" "sign_char (char_at dir2 1)"
    and "0 \<le> i" "i < Npoints" "roi ! 0 \<le> p1" "p1 < roi ! 1" "roi ! 2 \<le> p2" "p2 < roi ! 3"
    and "3 * nat (Npoints * (roi ! 1 - roi ! 0) * (roi ! 3 - roi ! 2)) \<le> length qpos"
    and "Ns * Npoints \<le> INT_MAX" "Nd * Npoints \<le> INT_MAX"
    and "3 * (Npoints * (roi ! 1 - roi ! 0) * (roi ! 3 - roi ! 2)) \<le> INT_MAX"
  shows "slot (fst (snd (ang2q_conversion_area sampleAngles detectorAngles qpos rcch Ns Nd Npoints sampleAxis detectorAxis cch1 cch2 dpixel1 dpixel2 roi dir1 dir2 lambda))) (nat (area_slot roi i p1 p2))
         = q_pixel (compose (circle_matrices sampleAxis sampleAngles Ns i)) (compose (circle_matrices detectorAxis detectorAngles Nd i))
             (area_direction (pixel_step dir1 dpixel1) (pixel_step dir2 dpixel2) cch1 cch2 rcch
                p1 p2)
             (normalize_v rcch) lambda"
proof -
  let ?SR = "map Some (generators sampleAxis)" and ?DR = "map Some (generators detectorAxis)"
  let ?s1 = "pixel_step dir1 dpixel1" and ?s2 = "pixel_step dir2 dpixel2"
  let ?N1 = "roi ! 1 - roi ! 0" and ?N2 = "roi ! 3 - roi ! 2"
  let ?off = "\<lambda>i j1 j2. mul32 3
           (add32 (add32 (mul32 i (?N1 * ?N2)) (mul32 ?N1 (sub32 j2 (roi ! 2))))
              (sub32 j1 (roi ! 0)))"
  define g where "g = (\<lambda>i j1 j2. matvec (inversemat (rotate_circles ?SR sampleAngles Ns i ident))
      (vecmul
        (diffvec
          (matvec (rotate_circles ?DR detectorAngles Nd i ident)
            (normalize_v
              (sumvec (map (\<lambda>k. real_of_int j1 * ?s1 ! k + real_of_int j2 * ?s2 ! k
                                - map (\<lambda>k. ?s1 ! k * cch1 + ?s2 ! k * cch2) [0, 1, 2] ! k)
                         [0, 1, 2]) rcch)))
          (normalize_v (veccopy rcch)))
        (M_2PI / lambda)))"
  have r1: "determine_axes_directions (replicate (nat Ns) None) sampleAxis Ns = (0, ?SR)"
    using assms(1,2) by (simp add: determine_axes_directions_valid)
  have r2: "determine_axes_directions (replicate (nat Nd) None) detectorAxis Nd = (0, ?DR)"
    using assms(3,4) by (simp add: determine_axes_directions_valid)
  have r3: "determine_detector_pixel dir1 dpixel1 = (0, ?s1)"
    using assms(5,6) by (simp only: determine_detector_pixel_valid pixel_step_def)
  have r4: "determine_detector_pixel dir2 dpixel2 = (0, ?s2)"
    using assms(7,8) by (simp only: determine_detector_pixel_valid pixel_step_def)
  have q: "fst (snd (ang2q_conversion_area sampleAngles detectorAngles qpos rcch Ns Nd Npoints sampleAxis detectorAxis cch1 cch2 dpixel1 dpixel2 roi dir1 dir2 lambda))
        = for_loop 0 Npoints (\<lambda>i. for_loop (roi ! 0) (roi ! 1) (\<lambda>j1. for_loop (roi ! 2) (roi ! 3)
            (\<lambda>j2 q. store3 q (?off i j1 j2) (g i j1 j2)))) qpos"
    using area_offset(1-3)[OF assms(9-14,18)]
    by (simp add: ang2q_conversion_area_def r1 r2 r3 r4 Let_def g_def)
  have "slot (for_loop 0 Npoints (\<lambda>i. for_loop (roi ! 0) (roi ! 1) (\<lambda>j1. for_loop (roi ! 2) (roi ! 3)
            (\<lambda>j2 q. store3 q (?off i j1 j2) (g i j1 j2)))) qpos)
          (nat (area_slot roi i p1 p2))
        = [g i p1 p2 ! 0, g i p1 p2 ! 1, g i p1 p2 ! 2]"
  proof (rule for_loop3_slot[where k = "area_slot roi"])
    show "\<forall>i j l. 0 \<le> i \<and> i < Npoints \<and> roi ! 0 \<le> j \<and> j < roi ! 1 \<and> roi ! 2 \<le> l \<and> l < roi ! 3
            \<longrightarrow> ?off i j l = 3 * area_slot roi i j l
                \<and> 0 \<le> area_slot roi i j l \<and> 3 * nat (area_slot roi i j l) + 2 < length qpos"
    proof (intro allI impI)
      fix i j l
      assume r: "0 \<le> i \<and> i < Npoints \<and> roi ! 0 \<le> j \<and> j < roi ! 1 \<and> roi ! 2 \<le> l \<and> l < roi ! 3"
      then have b: "0 \<le> area_slot roi i j l"
        "area_slot roi i j l < Npoints * ?N1 * ?N2"
        using area_slot_bound[of i Npoints roi j l] by simp_all
      have "?off i j l = 3 * area_slot roi i j l"
        using r by (intro area_offset(4)[OF _ _ _ _ _ _ assms(18)]) simp_all
      then show "?off i j l = 3 * area_slot roi i j l
            \<and> 0 \<le> area_slot roi i j l \<and> 3 * nat (area_slot roi i j l) + 2 < length qpos"
        using b slot_in_buffer[OF b assms(15)] by simp
    qed
    show "inj_on (\<lambda>(i, j, l). area_slot roi i j l)
            ({0..<Npoints} \<times> {roi ! 0..<roi ! 1} \<times> {roi ! 2..<roi ! 3})"
      by (rule area_slot_inj)
  qed (use assms(9-14) in simp_all)
  also have "\<dots> = g i p1 p2"
    unfolding g_def by (rule matvec_components)
  also have "\<dots> = q_pixel (compose (circle_matrices sampleAxis sampleAngles Ns i)) (compose (circle_matrices detectorAxis detectorAngles Nd i))
             (area_direction ?s1 ?s2 cch1 cch2 rcch p1 p2) (normalize_v rcch) lambda"
  proof -
    have d: "normalize_v
              (sumvec (map (\<lambda>k. real_of_int p1 * ?s1 ! k + real_of_int p2 * ?s2 ! k
                                - map (\<lambda>k. ?s1 ! k * cch1 + ?s2 ! k * cch2) [0, 1, 2] ! k)
                         [0, 1, 2]) rcch)
             = area_direction ?s1 ?s2 cch1 cch2 rcch p1 p2"
      unfolding area_direction_def
      by (rule normalize_v_cong) (simp_all add: sumvec_def mult.commute)
    have r: "normalize_v (veccopy rcch) = normalize_v rcch"
      by (rule normalize_v_cong) (simp_all add: veccopy_def)
    show ?thesis
      using assms(1-4,9,10,16,17)
      by (simp only: g_def d r q_pixel_def M_2PI_def
            rotate_circles_compose[where M = Npoints])
  qed
  finally show ?thesis by (simp add: q)
qed

section \<open>Claims about the computed momentum transfer\<close>

lemmas eval_matrices =
  q_point_def q_pixel_def beam_k_def compose_def circle_matrices_def generator_of_def
  matmul_def matvec_def diffmat_def inversemat_def determinant_def ident_def
  normalize_v_def norm_v_def vecmul_def diffvec_def

lemmas eval_axes = axis_letter_def sign_char_def char_at_def INT_MAX_def INT_MIN_def

lemma sqrt_squares: "sqrt 16 = 4" "sqrt 25 = 5" "sqrt 144 = 12" "sqrt 169 = 13"
  using real_sqrt_abs2[of 4] real_sqrt_abs2[of 5] real_sqrt_abs2[of 12] real_sqrt_abs2[of 13]
  by simp_all

text \<open>
  Claim C1.  For valid axis specs and every position \<open>i\<close> with \<open>0 \<le> i < Npoints\<close>,
  \<open>ang2q_conversion\<close> leaves in \<^verbatim>\<open>qpos[3i .. 3i+2]\<close> the vector
  \<open>R_s\<^sup>-\<^sup>1 (R_d - I) k_i\<close>, where \<open>R_s\<close> and \<open>R_d\<close> are the products of the sample and
  of the detector circle matrices in ascending circle order and \<open>k_i\<close> is the beam
  direction normalized and scaled by \<open>2\<pi>/\<lambda>\<close>.  The matrix that \<open>inversemat\<close> gives
  for \<open>R_s\<close> is its inverse, and the normalized direction has length 1 unless the
  given one is the zero vector.  The code multiplies the two matrices first and
  applies the product to \<open>k_i\<close>, which is the same vector.  The sizes are such
  that the index computations stay within the range of \<^verbatim>\<open>int\<close>: \<open>Ns * Npoints\<close>,
  \<open>Nd * Npoints\<close> and \<open>3 * Npoints\<close> do not exceed \<open>INT_MAX\<close>.
\<close>
theorem ang2q_conversion_point_q:
  assumes "valid_axes sampleAxis" "length sampleAxis = 2 * nat Ns"
    and "valid_axes detectorAxis" "length detectorAxis = 2 * nat Nd"
    and "0 \<le> i" "i < Npoints" "3 * nat Npoints \<le> length qpos"
    and "Ns * Npoints \<le> INT_MAX" "Nd * Npoints \<le> INT_MAX" "3 * Npoints \<le> INT_MAX"
  shows "slot (fst (snd (ang2q_conversion sampleAngles detectorAngles qpos ri Ns Nd Npoints sampleAxis detectorAxis lambda))) (nat i) = q_point (compose (circle_matrices sampleAxis sampleAngles Ns i)) (compose (circle_matrices detectorAxis detectorAngles Nd i)) (beam_k ri lambda)
       \<and> q_point (compose (circle_matrices sampleAxis sampleAngles Ns i)) (compose (circle_matrices detectorAxis detectorAngles Nd i)) (beam_k ri lambda)
           = matvec (matmul (inversemat (compose (circle_matrices sampleAxis sampleAngles Ns i))) (diffmat (compose (circle_matrices detectorAxis detectorAngles Nd i)) ident)) (beam_k ri lambda)
       \<and> matmul (compose (circle_matrices sampleAxis sampleAngles Ns i)) (inversemat (compose (circle_matrices sampleAxis sampleAngles Ns i))) = ident
       \<and> matmul (inversemat (compose (circle_matrices sampleAxis sampleAngles Ns i))) (compose (circle_matrices sampleAxis sampleAngles Ns i)) = ident
       \<and> (norm_v ri \<noteq> 0 \<longrightarrow> norm_v (normalize_v ri) = 1)"
proof (intro conjI impI)
  show "q_point (compose (circle_matrices sampleAxis sampleAngles Ns i)) (compose (circle_matrices detectorAxis detectorAngles Nd i)) (beam_k ri lambda)
        = matvec (matmul (inversemat (compose (circle_matrices sampleAxis sampleAngles Ns i))) (diffmat (compose (circle_matrices detectorAxis detectorAngles Nd i)) ident)) (beam_k ri lambda)"
    by (simp only: q_point_def matvec_matmul)
  show "slot (fst (snd (ang2q_conversion sampleAngles detectorAngles qpos ri Ns Nd Npoints sampleAxis detectorAxis lambda))) (nat i) = q_point (compose (circle_matrices sampleAxis sampleAngles Ns i)) (compose (circle_matrices detectorAxis detectorAngles Nd i)) (beam_k ri lambda)"
    using assms by (rule ang2q_conversion_slot)
  have "determinant (compose (circle_matrices sampleAxis sampleAngles Ns i)) \<noteq> 0"
    by (simp add: determinant_compose_circles)
  then show "matmul (compose (circle_matrices sampleAxis sampleAngles Ns i)) (inversemat (compose (circle_matrices sampleAxis sampleAngles Ns i))) = ident"
    and "matmul (inversemat (compose (circle_matrices sampleAxis sampleAngles Ns i))) (compose (circle_matrices sampleAxis sampleAngles Ns i)) = ident"
    by (rule matmul_inversemat, rule inversemat_matmul)
  assume "norm_v ri \<noteq> 0"
  then show "norm_v (normalize_v ri) = 1"
    by (rule norm_v_normalize_v)
qed

theorem ang2q_conversion_point_q_witness:
  "valid_axes ''x+y+'' \<and> length ''x+y+'' = 2 * nat 2
   \<and> valid_axes ''z+x+'' \<and> length ''z+x+'' = 2 * nat 2
   \<and> (0::int) \<le> 1 \<and> (1::int) < 2 \<and> 3 * nat 2 \<le> length (replicate 6 (7 :: real))
   \<and> (2::int) * 2 \<le> INT_MAX \<and> (3::int) * 2 \<le> INT_MAX
   \<and> slot (fst (snd (ang2q_conversion [0, 0, pi / 2, pi / 2] [0, 0, pi / 2, pi / 2]
                       (replicate 6 7) [0, 0, 2] 2 2 2 ''x+y+'' ''z+x+'' (2 * pi / 5))))
         (nat 1)
       = [0, - 5, 5]"
proof -
  have upt: "[0..<2] = [0, 1]"
    by (simp add: numeral_2_eq_2)
  have Rs: "compose (circle_matrices ''x+y+'' [0, 0, pi / 2, pi / 2] 2 1)
            = [0, 0, 1,  1, 0, 0,  0, 1, 0]"
    by (simp add: compose_def circle_matrices_def generator_of_def matmul_def ident_def upt)
  have Rd: "compose (circle_matrices ''z+x+'' [0, 0, pi / 2, pi / 2] 2 1)
            = [0, 0, 1,  1, 0, 0,  0, 1, 0]"
    by (simp add: compose_def circle_matrices_def generator_of_def matmul_def ident_def upt)
  have k: "beam_k [0, 0, 2] (2 * pi / 5) = [0, 0, 5]"
    by (simp add: beam_k_def normalize_v_def norm_v_def vecmul_def)
  have q: "q_point [0, 0, 1,  1, 0, 0,  0, 1, 0] [0, 0, 1,  1, 0, 0,  0, 1, 0] [0, 0, 5]
           = [0, - 5, 5]"
    by (simp add: q_point_def matvec_def diffmat_def inversemat_def determinant_def ident_def)
  show ?thesis
    using ang2q_conversion_point_q[where sampleAxis = "''x+y+''"
        and detectorAxis = "''z+x+''" and Ns = 2 and Nd = 2 and Npoints = 2 and i = 1
        and qpos = "replicate 6 7" and sampleAngles = "[0, 0, pi / 2, pi / 2]"
        and detectorAngles = "[0, 0, pi / 2, pi / 2]" and ri = "[0, 0, 2]"
        and lambda = "2 * pi / 5"]
    by (simp add: eval_axes Rs Rd k q)
qed

text \<open>
  Claim C2 says that with an identity detector rotation the point-detector output
  is the beam direction scaled to \<open>2\<pi>/\<lambda>\<close>, and \<open>(0, 0, 5)\<close> in the scenario of one
  circle \<open>x+\<close> on each side, both angles 0, beam direction \<open>(0, 0, 1)\<close> and
  \<open>2\<pi>/\<lambda> = 5\<close>.  In that scenario the output is \<open>(0, 0, 0)\<close>.
\<close>
theorem zero_angles_q_counterexample:
  "fst (snd (ang2q_conversion [0] [0] [7, 7, 7] [0, 0, 1] 1 1 1 ''x+'' ''x+'' (2 * pi / 5)))
     = [0, 0, 0]
   \<and> fst (snd (ang2q_conversion [0] [0] [7, 7, 7] [0, 0, 1] 1 1 1 ''x+'' ''x+'' (2 * pi / 5)))
     \<noteq> [0, 0, 5]"
  apply (simp add: ang2q_conversion_def determine_axes_directions_def
      determine_axes_loop.simps tolower_def char_at_def for_loop.simps rotate_circles_def
      Let_def)
  apply (simp add: mul32_def add32_def int32_id INT_MIN_def INT_MAX_def read_at_def
      store3_def store_def)
  apply (simp add: M_2PI_def matmul_def matvec_def diffmat_def inversemat_def
      determinant_def ident_def normalize_v_def norm_v_def vecmul_def)
  done

text \<open>
  Claim C2, amended.  At every position where the composed detector rotation is
  the identity, in particular where all detector angles are 0, the point-detector
  output is the zero vector: \<open>R_d - I\<close> is the zero matrix there.  The sizes are
  within the range of \<^verbatim>\<open>int\<close> as for claim C1.
\<close>
theorem identity_detector_rotation_q:
  assumes "valid_axes sampleAxis" "length sampleAxis = 2 * nat Ns"
    and "valid_axes detectorAxis" "length detectorAxis = 2 * nat Nd"
    and "0 \<le> i" "i < Npoints" "3 * nat Npoints \<le> length qpos"
    and "Ns * Npoints \<le> INT_MAX" "Nd * Npoints \<le> INT_MAX" "3 * Npoints \<le> INT_MAX"
    and "compose (circle_matrices detectorAxis detectorAngles Nd i) = ident
         \<or> (\<forall>j < nat Nd. detectorAngles ! (nat Nd * nat i + j) = 0)"
  shows "slot (fst (snd (ang2q_conversion sampleAngles detectorAngles qpos ri Ns Nd Npoints sampleAxis detectorAxis lambda))) (nat i) = [0, 0, 0]"
proof -
  have Rd: "compose (circle_matrices detectorAxis detectorAngles Nd i) = ident"
    using assms(11) by (auto simp: compose_zero_angles)
  have "slot (fst (snd (ang2q_conversion sampleAngles detectorAngles qpos ri Ns Nd Npoints sampleAxis detectorAxis lambda))) (nat i) = q_point (compose (circle_matrices sampleAxis sampleAngles Ns i)) (compose (circle_matrices detectorAxis detectorAngles Nd i)) (beam_k ri lambda)"
    using assms(1-10) by (rule ang2q_conversion_slot)
  also have "\<dots> = [0, 0, 0]"
    unfolding Rd by (simp add: q_point_def diffmat_def matvec_def ident_def)
  finally show ?thesis .
qed

theorem identity_detector_rotation_q_witness:
  "valid_axes ''x+'' \<and> length ''x+'' = 2 * nat 1
   \<and> (0::int) \<le> 1 \<and> (1::int) < 2 \<and> 3 * nat 2 \<le> length (replicate 6 (7 :: real))
   \<and> (1::int) * 2 \<le> INT_MAX \<and> (3::int) * 2 \<le> INT_MAX
   \<and> [pi, 0 :: real] ! (nat 1 * nat 1 + 0) = 0
   \<and> slot (fst (snd (ang2q_conversion [0, pi] [pi, 0] (replicate 6 7) [0, 0, 2] 1 1 2
                       ''x+'' ''x+'' (2 * pi / 5)))) (nat 1) = [0, 0, 0]"
  using identity_detector_rotation_q[where sampleAxis = "''x+''" and detectorAxis = "''x+''"
      and Ns = 1 and Nd = 1 and Npoints = 2 and i = 1 and qpos = "replicate 6 7"
      and sampleAngles = "[0, pi]" and detectorAngles = "[pi, 0]" and ri = "[0, 0, 2]"
      and lambda = "2 * pi / 5"]
  by (simp add: eval_axes)

text \<open>
  Claim C3.  For valid axis and direction specs, every position \<open>i\<close> and every pixel
  \<open>p\<close> with \<open>roi[0] \<le> p < roi[1]\<close>, \<open>ang2q_conversion_linear\<close> leaves in output
  vector number \<open>i * Nch + (p - roi[0])\<close> the vector
  \<open>R_s\<^sup>-\<^sup>1 ((R_d d_p - r_i) * 2\<pi>/\<lambda>)\<close>, where
  \<open>d_p = normalize (p * step - cch * step + rcch)\<close> and \<open>r_i\<close> is \<open>rcch\<close> normalized;
  the scaling follows the subtraction.  The sizes are such that no step of the
  index computation leaves the range of \<^verbatim>\<open>int\<close>: \<open>Ns * Npoints\<close>, \<open>Nd * Npoints\<close>,
  \<open>Npoints * Nch + roi[0]\<close> and \<open>3 * Npoints * Nch\<close> do not exceed \<open>INT_MAX\<close>.
\<close>
theorem ang2q_conversion_linear_q:
  assumes "valid_axes sampleAxis" "length sampleAxis = 2 * nat Ns"
    and "valid_axes detectorAxis" "length detectorAxis = 2 * nat Nd"
    and "axis_letter (char_at dir 0)" "sign_char (char_at dir 1)"
    and "0 \<le> i" "i < Npoints" "roi ! 0 \<le> p" "p < roi ! 1"
    and "3 * nat (Npoints * (roi ! 1 - roi ! 0)) \<le> length qpos"
    and "Ns * Npoints \<le> INT_MAX" "Nd * Npoints \<le> INT_MAX"
    and "INT_MIN \<le> roi ! 0" "Npoints * (roi ! 1 - roi ! 0) + roi ! 0 \<le> INT_MAX"
    and "3 * (Npoints * (roi ! 1 - roi ! 0)) \<le> INT_MAX"
  shows "slot (fst (snd (ang2q_conversion_linear sampleAngles detectorAngles qpos rcch Ns Nd Npoints sampleAxis detectorAxis cch dpixel roi dir lambda))) (nat (i * (roi ! 1 - roi ! 0) + (p - roi ! 0)))
         = q_pixel (compose (circle_matrices sampleAxis sampleAngles Ns i)) (compose (circle_matrices detectorAxis detectorAngles Nd i)) (linear_direction (pixel_step dir dpixel) cch rcch p)
             (normalize_v rcch) lambda
       \<and> matmul (compose (circle_matrices sampleAxis sampleAngles Ns i)) (inversemat (compose (circle_matrices sampleAxis sampleAngles Ns i))) = ident
       \<and> (norm_v rcch \<noteq> 0 \<longrightarrow> norm_v (normalize_v rcch) = 1)"
proof (intro conjI impI)
  show "slot (fst (snd (ang2q_conversion_linear sampleAngles detectorAngles qpos rcch Ns Nd Npoints sampleAxis detectorAxis cch dpixel roi dir lambda))) (nat (i * (roi ! 1 - roi ! 0) + (p - roi ! 0)))
         = q_pixel (compose (circle_matrices sampleAxis sampleAngles Ns i)) (compose (circle_matrices detectorAxis detectorAngles Nd i)) (linear_direction (pixel_step dir dpixel) cch rcch p)
             (normalize_v rcch) lambda"
    using ang2q_conversion_linear_slot[OF assms] by (simp only: linear_slot_def)
  have "determinant (compose (circle_matrices sampleAxis sampleAngles Ns i)) \<noteq> 0"
    by (simp add: determinant_compose_circles)
  then show "matmul (compose (circle_matrices sampleAxis sampleAngles Ns i)) (inversemat (compose (circle_matrices sampleAxis sampleAngles Ns i))) = ident"
    by (rule matmul_inversemat)
  assume "norm_v rcch \<noteq> 0"
  then show "norm_v (normalize_v rcch) = 1"
    by (rule norm_v_normalize_v)
qed

theorem ang2q_conversion_linear_q_witness:
  "valid_axes ''z+'' \<and> length ''z+'' = 2 * nat 1 \<and> valid_axes ''x+'' \<and> length ''x+'' = 2 * nat 1
   \<and> axis_letter (char_at ''y+'' 0) \<and> sign_char (char_at ''y+'' 1)
   \<and> (0::int) \<le> 1 \<and> (1::int) < 2 \<and> [1, 3 :: int] ! 0 \<le> 2 \<and> 2 < [1, 3 :: int] ! 1
   \<and> 3 * nat (2 * ([1, 3] ! 1 - [1, 3] ! 0)) \<le> length (replicate 12 (7 :: real))
   \<and> (1::int) * 2 \<le> INT_MAX \<and> INT_MIN \<le> [1, 3] ! 0
   \<and> 2 * ([1, 3] ! 1 - [1, 3] ! 0) + [1, 3] ! 0 \<le> INT_MAX
   \<and> 3 * (2 * ([1, 3] ! 1 - [1, 3] ! 0)) \<le> INT_MAX
   \<and> slot (fst (snd (ang2q_conversion_linear [0, pi] [0, pi] (replicate 12 7) [0, 0, 4] 1 1 2
                       ''z+'' ''x+'' 1 3 [1, 3] ''y+'' (2 * pi / 5)))) 3 = [0, 3, - 9]"
  using ang2q_conversion_linear_q[where sampleAxis = "''z+''" and detectorAxis = "''x+''"
      and Ns = 1 and Nd = 1 and Npoints = 2 and i = 1 and p = 2 and qpos = "replicate 12 7"
      and sampleAngles = "[0, pi]" and detectorAngles = "[0, pi]" and rcch = "[0, 0, 4]"
      and cch = 1 and dpixel = 3 and roi = "[1, 3]" and dir = "''y+''"
      and lambda = "2 * pi / 5"]
  by (simp add: eval_axes eval_matrices linear_direction_def pixel_step_def axis_number_def
        sign_value_def sqrt_squares)

text \<open>
  Claim C4.  For valid specs, \<open>ang2q_conversion_area\<close> leaves the vector of position
  \<open>i\<close> and pixel \<open>(p1, p2)\<close> in output vector number
  \<open>i * N1 * N2 + (p2 - roi[2]) * N1 + (p1 - roi[0])\<close>, with \<open>N1 = roi[1] - roi[0]\<close> and
  \<open>N2 = roi[3] - roi[2]\<close>, and this index map is injective on the positions and
  pixels in range.  The sizes are such that no step of the index computation
  leaves the range of \<^verbatim>\<open>int\<close>: \<open>Ns * Npoints\<close>, \<open>Nd * Npoints\<close> and
  \<open>3 * Npoints * N1 * N2\<close> do not exceed \<open>INT_MAX\<close>.
\<close>
theorem area_detector_slots:
  assumes "valid_axes sampleAxis" "length sampleAxis = 2 * nat Ns"
    and "valid_axes detectorAxis" "length detectorAxis = 2 * nat Nd"
    and "axis_letter (char_at dir1 0)" "sign_char (char_at dir1 1)"
    and "axis_letter (char_at dir2 0)" "sign_char (char_at dir2 1)"
    and "0 \<le> i" "i < Npoints" "roi ! 0 \<le> p1" "p1 < roi ! 1" "roi ! 2 \<le> p2" "p2 < roi ! 3"
    and "3 * nat (Npoints * (roi ! 1 - roi ! 0) * (roi ! 3 - roi ! 2)) \<le> length qpos"
    and "Ns * Npoints \<le> INT_MAX" "Nd * Npoints \<le> INT_MAX"
    and "3 * (Npoints * (roi ! 1 - roi ! 0) * (roi ! 3 - roi ! 2)) \<le> INT_MAX"
  shows "slot (fst (snd (ang2q_conversion_area sampleAngles detectorAngles qpos rcch Ns Nd Npoints sampleAxis detectorAxis cch1 cch2 dpixel1 dpixel2 roi dir1 dir2 lambda)))
           (nat (i * (roi ! 1 - roi ! 0) * (roi ! 3 - roi ! 2)
                 + (p2 - roi ! 2) * (roi ! 1 - roi ! 0) + (p1 - roi ! 0)))
         = q_pixel (compose (circle_matrices sampleAxis sampleAngles Ns i)) (compose (circle_matrices detectorAxis detectorAngles Nd i))
             (area_direction (pixel_step dir1 dpixel1) (pixel_step dir2 dpixel2) cch1 cch2 rcch
                p1 p2)
             (normalize_v rcch) lambda
       \<and> inj_on (\<lambda>(i, p1, p2). i * (roi ! 1 - roi ! 0) * (roi ! 3 - roi ! 2)
                     + (p2 - roi ! 2) * (roi ! 1 - roi ! 0) + (p1 - roi ! 0))
           ({0..<Npoints} \<times> {roi ! 0..<roi ! 1} \<times> {roi ! 2..<roi ! 3})"
proof
  show "slot (fst (snd (ang2q_conversion_area sampleAngles detectorAngles qpos rcch Ns Nd Npoints sampleAxis detectorAxis cch1 cch2 dpixel1 dpixel2 roi dir1 dir2 lambda)))
           (nat (i * (roi ! 1 - roi ! 0) * (roi ! 3 - roi ! 2)
                 + (p2 - roi ! 2) * (roi ! 1 - roi ! 0) + (p1 - roi ! 0)))
         = q_pixel (compose (circle_matrices sampleAxis sampleAngles Ns i)) (compose (circle_matrices detectorAxis detectorAngles Nd i))
             (area_direction (pixel_step dir1 dpixel1) (pixel_step dir2 dpixel2) cch1 cch2 rcch
                p1 p2)
             (normalize_v rcch) lambda"
    using ang2q_conversion_area_slot[OF assms] by (simp only: area_slot_def)
  show "inj_on (\<lambda>(i, p1, p2). i * (roi ! 1 - roi ! 0) * (roi ! 3 - roi ! 2)
                     + (p2 - roi ! 2) * (roi ! 1 - roi ! 0) + (p1 - roi ! 0))
           ({0..<Npoints} \<times> {roi ! 0..<roi ! 1} \<times> {roi ! 2..<roi ! 3})"
    using area_slot_inj[of roi "{0..<Npoints}"] by (simp only: area_slot_def)
qed

theorem area_detector_slots_witness:
  "valid_axes ''z+'' \<and> length ''z+'' = 2 * nat 1 \<and> valid_axes ''x+'' \<and> length ''x+'' = 2 * nat 1
   \<and> axis_letter (char_at ''x+'' 0) \<and> sign_char (char_at ''x+'' 1)
   \<and> axis_letter (char_at ''y-'' 0) \<and> sign_char (char_at ''y-'' 1)
   \<and> (0::int) \<le> 1 \<and> (1::int) < 2
   \<and> [0, 3, 0, 2 :: int] ! 0 \<le> 0 \<and> 0 < [0, 3, 0, 2 :: int] ! 1
   \<and> [0, 3, 0, 2 :: int] ! 2 \<le> 1 \<and> 1 < [0, 3, 0, 2 :: int] ! 3
   \<and> 3 * nat (2 * ([0, 3, 0, 2] ! 1 - [0, 3, 0, 2] ! 0) * ([0, 3, 0, 2] ! 3 - [0, 3, 0, 2] ! 2))
       \<le> length (replicate 36 (7 :: real))
   \<and> (1::int) * 2 \<le> INT_MAX
   \<and> 3 * (2 * ([0, 3, 0, 2] ! 1 - [0, 3, 0, 2] ! 0) * ([0, 3, 0, 2] ! 3 - [0, 3, 0, 2] ! 2))
       \<le> INT_MAX
   \<and> slot (fst (snd (ang2q_conversion_area [0, pi] [0, pi] (replicate 36 7) [0, 0, 12] 1 1 2
                       ''z+'' ''x+'' 1 0 3 4 [0, 3, 0, 2] ''x+'' ''y-'' (2 * pi / 13)))) 9
       = [3, - 4, - 25]"
  using area_detector_slots[where sampleAxis = "''z+''" and detectorAxis = "''x+''"
      and Ns = 1 and Nd = 1 and Npoints = 2 and i = 1 and ?p1.0 = 0 and ?p2.0 = 1
      and qpos = "replicate 36 7"
      and sampleAngles = "[0, pi]" and detectorAngles = "[0, pi]" and rcch = "[0, 0, 12]"
      and ?cch1.0 = 1 and ?cch2.0 = 0 and ?dpixel1.0 = 3 and ?dpixel2.0 = 4
      and roi = "[0, 3, 0, 2]" and ?dir1.0 = "''x+''" and ?dir2.0 = "''y-''"
      and lambda = "2 * pi / 13"]
  by (simp add: eval_axes eval_matrices area_direction_def pixel_step_def axis_number_def
        sign_value_def sqrt_squares)

end
